theory Spec2Isabelle
  imports Complex_Main "HOL-Library.Word"
begin

section \<open>Strings of bytes\<close>

text \<open>
  A \<^verbatim>\<open>std::string\<close> is a list of bytes (\<^typ>\<open>char\<close>). The three member functions the
  programs use are \<^verbatim>\<open>find(char)\<close> (with \<^verbatim>\<open>npos\<close> as \<^term>\<open>None\<close>),
  \<^verbatim>\<open>substr(pos, n)\<close> and \<^verbatim>\<open>erase(pos, n)\<close>; both callers pass positions inside
  the string, so the \<^verbatim>\<open>out_of_range\<close> exception of \<^verbatim>\<open>substr\<close> and \<^verbatim>\<open>erase\<close>
  (raised for \<^verbatim>\<open>pos > size()\<close>) is never reached.
\<close>

definition nl :: char where
  "nl = CHR 0x0A"

fun str_find :: "string \<Rightarrow> char \<Rightarrow> nat option" where
  "str_find [] c = None"
| "str_find (x # xs) c = (if x = c then Some 0 else map_option Suc (str_find xs c))"

definition substr :: "string \<Rightarrow> nat \<Rightarrow> nat \<Rightarrow> string" where
  "substr s pos n = take n (drop pos s)"

definition erase :: "string \<Rightarrow> nat \<Rightarrow> nat \<Rightarrow> string" where
  "erase s pos n = take pos s @ drop (pos + n) s"

section \<open>The inbound framing loop\<close>

text \<open>
  \<^verbatim>\<open>tcp_peer.cpp\<close>, lines 204 to 210 (and again 269 to 275):
  \<^verbatim>\<open>
  while (true) {
    size_t pos = incoming_buffer.find('\n');
    if (pos == std::string::npos) break;
    std::string one_line = incoming_buffer.substr(0, pos);
    incoming_buffer.erase(0, pos + 1);
    std::cout << "[peer] " << one_line << "\n";
  }
  \<close>
  The loop returns the lines it cut off, in the order it printed them, and the buffer
  it leaves behind. The buffer gets shorter in every round, so the loop always ends.
\<close>

function pull_lines :: "string \<Rightarrow> string list \<times> string" where
  "pull_lines incoming_buffer =
     (case str_find incoming_buffer nl of
        None \<Rightarrow> ([], incoming_buffer)
      | Some pos \<Rightarrow>
          (let one_line = substr incoming_buffer 0 pos;
               (more_lines, final_buffer) = pull_lines (erase incoming_buffer 0 (pos + 1))
           in (one_line # more_lines, final_buffer)))"
  by pat_completeness auto
termination
proof (relation "measure length")
  show "wf (measure length)"
    by simp
next
  fix incoming_buffer :: string and pos :: nat
  assume "str_find incoming_buffer nl = Some pos"
  then have "pos < length incoming_buffer"
    by (induction incoming_buffer arbitrary: pos) (auto split: if_splits)
  then show "(erase incoming_buffer 0 (pos + 1), incoming_buffer) \<in> measure length"
    by (simp add: erase_def)
qed

declare pull_lines.simps [simp del]

text \<open>
  Lines 201 to 210: \<^verbatim>\<open>incoming_buffer.append(chunk, n)\<close>, then the loop.
\<close>

definition frame_chunk :: "string \<Rightarrow> string \<Rightarrow> string list \<times> string" where
  "frame_chunk incoming_buffer chunk = pull_lines (incoming_buffer @ chunk)"

text \<open>
  The receive path run on a sequence of chunks, one \<open>frame_chunk\<close> for each, as the
  session does for the chunks \<^verbatim>\<open>recv\<close> hands it: all lines in order, and the buffer
  at the end.
\<close>

fun feed_chunks :: "string \<Rightarrow> string list \<Rightarrow> string list \<times> string" where
  "feed_chunks incoming_buffer [] = ([], incoming_buffer)"
| "feed_chunks incoming_buffer (chunk # chunks) =
     (let (ls, buffer') = frame_chunk incoming_buffer chunk;
          (more_lines, final_buffer) = feed_chunks buffer' chunks
      in (ls @ more_lines, final_buffer))"

section \<open>The operating system\<close>

text \<open>
  A system call returns a value, or \<^verbatim>\<open>-1\<close> with \<^verbatim>\<open>errno\<close> set. \<^verbatim>\<open>EINTR\<close> is 4 on
  Linux and on macOS.
\<close>

datatype 'a sysret = Ok 'a | Fail nat

definition EINTR :: nat where
  "EINTR = 4"

definition AF_INET :: nat where
  "AF_INET = 2"

definition INADDR_ANY :: "32 word" where
  "INADDR_ANY = 0"

text \<open>
  \<^verbatim>\<open>sin_port\<close> holds the port in network byte order: the two bytes as they lie in
  memory, most significant first. \<^verbatim>\<open>htons\<close> writes them, \<^verbatim>\<open>ntohs\<close> reads them.
\<close>

record sockaddr_in =
  sin_family :: nat
  sin_port :: "8 word \<times> 8 word"
  sin_addr :: "32 word"

definition htons :: "16 word \<Rightarrow> 8 word \<times> 8 word" where
  "htons x = (ucast (drop_bit 8 x), ucast x)"

definition ntohs :: "8 word \<times> 8 word \<Rightarrow> 16 word" where
  "ntohs b = or (push_bit 8 (ucast (fst b))) (ucast (snd b))"

text \<open>\<^verbatim>\<open>static_cast<uint16_t>(port)\<close> on a 32-bit \<^verbatim>\<open>int\<close> keeps the low 16 bits.\<close>

definition static_cast_uint16 :: "32 word \<Rightarrow> 16 word" where
  "static_cast_uint16 port = ucast port"

text \<open>
  The terminal settings of the keystroke program: the flag words and the control
  characters. The values of \<^verbatim>\<open>ICANON\<close>, \<^verbatim>\<open>ECHO\<close>, \<^verbatim>\<open>VMIN\<close> and \<^verbatim>\<open>VTIME\<close>
  differ between Linux and macOS and are parameters.
\<close>

record termios =
  c_iflag :: "32 word"
  c_oflag :: "32 word"
  c_cflag :: "32 word"
  c_lflag :: "32 word"
  c_cc :: "nat \<Rightarrow> 8 word"

definition STDIN_FILENO :: int where
  "STDIN_FILENO = 0"

definition STDOUT_FILENO :: int where
  "STDOUT_FILENO = 1"

text \<open>
  The world outside the program is a state of type \<^typ>\<open>'w\<close> and one function per
  call the programs make. Nothing is assumed about them, so a theorem about every
  \<open>os\<close> is a theorem about every behaviour of the network, the keyboard and the
  signals. The pure library functions (\<^verbatim>\<open>std::stoi\<close>, with \<^term>\<open>None\<close> when it throws,
  \<^verbatim>\<open>strerror\<close>, \<^verbatim>\<open>inet_pton\<close>, with \<^term>\<open>None\<close> when it does not return 1, and
  \<^verbatim>\<open>inet_ntop\<close>) are parameters too.
\<close>

record 'w os =
  stoi :: "string \<Rightarrow> 32 word option"
  strerror :: "nat \<Rightarrow> string"
  inet_pton :: "string \<Rightarrow> 32 word option"
  inet_ntop :: "32 word \<Rightarrow> string"
  sys_socket :: "'w \<Rightarrow> nat sysret \<times> 'w"
  sys_setsockopt :: "'w \<Rightarrow> int \<Rightarrow> 'w"
  sys_bind :: "'w \<Rightarrow> int \<Rightarrow> sockaddr_in \<Rightarrow> unit sysret \<times> 'w"
  sys_listen :: "'w \<Rightarrow> int \<Rightarrow> nat \<Rightarrow> unit sysret \<times> 'w"
  sys_accept :: "'w \<Rightarrow> int \<Rightarrow> (nat \<times> sockaddr_in) sysret \<times> 'w"
  sys_connect :: "'w \<Rightarrow> int \<Rightarrow> sockaddr_in \<Rightarrow> unit sysret \<times> 'w"
  sys_select :: "'w \<Rightarrow> int \<Rightarrow> int set sysret \<times> 'w"
  sys_getline :: "'w \<Rightarrow> string option \<times> 'w"
  sys_send :: "'w \<Rightarrow> int \<Rightarrow> string \<Rightarrow> nat sysret \<times> 'w"
  sys_recv :: "'w \<Rightarrow> int \<Rightarrow> nat \<Rightarrow> string sysret \<times> 'w"
  sys_close :: "'w \<Rightarrow> int \<Rightarrow> 'w"
  ICANON :: "32 word"
  ECHO :: "32 word"
  VMIN :: nat
  VTIME :: nat
  sys_tcgetattr :: "'w \<Rightarrow> int \<Rightarrow> termios sysret \<times> 'w"
  sys_tcsetattr :: "'w \<Rightarrow> int \<Rightarrow> termios \<Rightarrow> unit sysret \<times> 'w"
  sys_read :: "'w \<Rightarrow> int \<Rightarrow> nat \<Rightarrow> string sysret \<times> 'w"
  sys_write :: "'w \<Rightarrow> int \<Rightarrow> string \<Rightarrow> 'w"

text \<open>
  What the program does is recorded as a trace: every call with its arguments and its
  result, and every statement that writes to \<^verbatim>\<open>std::cout\<close> or \<^verbatim>\<open>std::cerr\<close> with
  the pieces of its \<^verbatim>\<open><<\<close> chain.
\<close>

datatype piece = S string | I int

datatype event =
    EvSocket "nat sysret"
  | EvSetsockopt int
  | EvBind int sockaddr_in "unit sysret"
  | EvListen int nat "unit sysret"
  | EvAccept int "(nat \<times> sockaddr_in) sysret"
  | EvConnect int sockaddr_in "unit sysret"
  | EvSelect int "int set sysret"
  | EvGetline "string option"
  | EvSend int string "nat sysret"
  | EvRecv int "string sysret"
  | EvClose int
  | EvTcgetattr int "termios sysret"
  | EvTcsetattr int termios "unit sysret"
  | EvRead int "string sysret"
  | EvWrite int string
  | Cout "piece list"
  | Cerr "piece list"

record 'w state =
  world :: 'w
  trace :: "event list"

definition log :: "event \<Rightarrow> 'w \<Rightarrow> 'w state \<Rightarrow> 'w state" where
  "log ev w st = \<lparr>world = w, trace = trace st @ [ev]\<rparr>"

definition cout :: "piece list \<Rightarrow> 'w state \<Rightarrow> 'w state" where
  "cout ps st = log (Cout ps) (world st) st"

definition cerr :: "piece list \<Rightarrow> 'w state \<Rightarrow> 'w state" where
  "cerr ps st = log (Cerr ps) (world st) st"

definition call_socket :: "'w os \<Rightarrow> 'w state \<Rightarrow> nat sysret \<times> 'w state" where
  "call_socket os st = (let (r, w) = sys_socket os (world st) in (r, log (EvSocket r) w st))"

definition call_setsockopt :: "'w os \<Rightarrow> int \<Rightarrow> 'w state \<Rightarrow> 'w state" where
  "call_setsockopt os fd st = log (EvSetsockopt fd) (sys_setsockopt os (world st) fd) st"

definition call_bind :: "'w os \<Rightarrow> int \<Rightarrow> sockaddr_in \<Rightarrow> 'w state \<Rightarrow> unit sysret \<times> 'w state" where
  "call_bind os fd addr st =
     (let (r, w) = sys_bind os (world st) fd addr in (r, log (EvBind fd addr r) w st))"

definition call_listen :: "'w os \<Rightarrow> int \<Rightarrow> nat \<Rightarrow> 'w state \<Rightarrow> unit sysret \<times> 'w state" where
  "call_listen os fd backlog st =
     (let (r, w) = sys_listen os (world st) fd backlog in (r, log (EvListen fd backlog r) w st))"

definition call_accept ::
  "'w os \<Rightarrow> int \<Rightarrow> 'w state \<Rightarrow> (nat \<times> sockaddr_in) sysret \<times> 'w state" where
  "call_accept os fd st =
     (let (r, w) = sys_accept os (world st) fd in (r, log (EvAccept fd r) w st))"

definition call_connect ::
  "'w os \<Rightarrow> int \<Rightarrow> sockaddr_in \<Rightarrow> 'w state \<Rightarrow> unit sysret \<times> 'w state" where
  "call_connect os fd addr st =
     (let (r, w) = sys_connect os (world st) fd addr in (r, log (EvConnect fd addr r) w st))"

definition call_select :: "'w os \<Rightarrow> int \<Rightarrow> 'w state \<Rightarrow> int set sysret \<times> 'w state" where
  "call_select os nfds st =
     (let (r, w) = sys_select os (world st) nfds in (r, log (EvSelect nfds r) w st))"

definition call_getline :: "'w os \<Rightarrow> 'w state \<Rightarrow> string option \<times> 'w state" where
  "call_getline os st = (let (r, w) = sys_getline os (world st) in (r, log (EvGetline r) w st))"

text \<open>
  \<^verbatim>\<open>send(fd, data, left, 0)\<close> takes at most the \<^verbatim>\<open>left\<close> bytes it is offered, and
  \<^verbatim>\<open>recv(fd, chunk, sizeof(chunk), 0)\<close> fills at most the buffer it is given: whatever
  the world answers is cut to that length.
\<close>

definition call_send :: "'w os \<Rightarrow> int \<Rightarrow> string \<Rightarrow> 'w state \<Rightarrow> nat sysret \<times> 'w state" where
  "call_send os fd data st =
     (let (r, w) = sys_send os (world st) fd data;
          r' = (case r of Ok n \<Rightarrow> Ok (min n (length data)) | Fail e \<Rightarrow> Fail e)
      in (r', log (EvSend fd data r') w st))"

definition call_recv :: "'w os \<Rightarrow> int \<Rightarrow> nat \<Rightarrow> 'w state \<Rightarrow> string sysret \<times> 'w state" where
  "call_recv os fd len st =
     (let (r, w) = sys_recv os (world st) fd len;
          r' = (case r of Ok bytes \<Rightarrow> Ok (take len bytes) | Fail e \<Rightarrow> Fail e)
      in (r', log (EvRecv fd r') w st))"

definition call_close :: "'w os \<Rightarrow> int \<Rightarrow> 'w state \<Rightarrow> 'w state" where
  "call_close os fd st = log (EvClose fd) (sys_close os (world st) fd) st"

definition call_tcgetattr :: "'w os \<Rightarrow> int \<Rightarrow> 'w state \<Rightarrow> termios sysret \<times> 'w state" where
  "call_tcgetattr os fd st =
     (let (r, w) = sys_tcgetattr os (world st) fd in (r, log (EvTcgetattr fd r) w st))"

definition call_tcsetattr ::
  "'w os \<Rightarrow> int \<Rightarrow> termios \<Rightarrow> 'w state \<Rightarrow> unit sysret \<times> 'w state" where
  "call_tcsetattr os fd t st =
     (let (r, w) = sys_tcsetattr os (world st) fd t in (r, log (EvTcsetattr fd t r) w st))"

definition call_read :: "'w os \<Rightarrow> int \<Rightarrow> nat \<Rightarrow> 'w state \<Rightarrow> string sysret \<times> 'w state" where
  "call_read os fd len st =
     (let (r, w) = sys_read os (world st) fd len;
          r' = (case r of Ok bytes \<Rightarrow> Ok (take len bytes) | Fail e \<Rightarrow> Fail e)
      in (r', log (EvRead fd r') w st))"

definition call_write :: "'w os \<Rightarrow> int \<Rightarrow> string \<Rightarrow> 'w state \<Rightarrow> 'w state" where
  "call_write os fd bytes st = log (EvWrite fd bytes) (sys_write os (world st) fd bytes) st"

section \<open>send_all_bytes\<close>

text \<open>
  \<^verbatim>\<open>
  static bool send_all_bytes(int socket_fd, const std::string& text) {
    const char* data = text.data();
    size_t left = text.size();
    while (left > 0) {
      ssize_t n = ::send(socket_fd, data, left, 0);
      if (n < 0) {
        if (errno == EINTR) continue; // interrupted; try again
        std::cerr << "send error: " << std::strerror(errno) << "\n";
        return false;
      }
      if (n == 0) return false;       // peer closed unexpectedly
      data += n;
      left -= static_cast<size_t>(n);
    }
    return true;
  }
  \<close>
  The pair of \<^verbatim>\<open>data\<close> and \<^verbatim>\<open>left\<close> is the list of the bytes not sent yet. The loop
  need not end (a world that interrupts every call keeps it running), so it is a
  partial function: \<^term>\<open>None\<close> is the run that never returns. The keystroke program's
  \<^verbatim>\<open>send_all_bytes(socket_fd, data, len)\<close> is the same loop on the same pair.
\<close>

partial_function (option) send_loop ::
  "'w os \<Rightarrow> int \<Rightarrow> string \<Rightarrow> 'w state \<Rightarrow> (bool \<times> 'w state) option" where
  "send_loop os socket_fd data st =
     (if length data > 0 then
        (case call_send os socket_fd data st of
           (Fail e, st1) \<Rightarrow>
             if e = EINTR then send_loop os socket_fd data st1
             else Some (False, cerr [S ''send error: '', S (strerror os e), S ''\<newline>''] st1)
         | (Ok n, st1) \<Rightarrow>
             if n = 0 then Some (False, st1)
             else send_loop os socket_fd (drop n data) st1)
      else Some (True, st))"

declare send_loop.simps [code]

definition send_all_bytes ::
  "'w os \<Rightarrow> int \<Rightarrow> string \<Rightarrow> 'w state \<Rightarrow> (bool \<times> 'w state) option" where
  "send_all_bytes os socket_fd text st = send_loop os socket_fd text st"

section \<open>Establishing the connection\<close>

text \<open>
  \<^verbatim>\<open>connect_to_peer\<close> (lines 50 to 79) and \<^verbatim>\<open>listen_and_accept\<close> (lines 82 to 135)
  return the connected descriptor, or \<^verbatim>\<open>-1\<close> after reporting on \<^verbatim>\<open>std::cerr\<close>.
  The address is zeroed by \<^verbatim>\<open>memset\<close> before its fields are written.
\<close>

definition zero_addr :: sockaddr_in where
  "zero_addr = \<lparr>sin_family = 0, sin_port = (0, 0), sin_addr = 0\<rparr>"

definition connect_to_peer :: "'w os \<Rightarrow> string \<Rightarrow> 32 word \<Rightarrow> 'w state \<Rightarrow> int \<times> 'w state" where
  "connect_to_peer os host port st =
     (case call_socket os st of
        (Fail e, st1) \<Rightarrow>
          (- 1, cerr [S ''socket() failed: '', S (strerror os e), S ''\<newline>''] st1)
      | (Ok fd, st1) \<Rightarrow>
          (let addr = zero_addr\<lparr>sin_family := AF_INET,
                                 sin_port := htons (static_cast_uint16 port)\<rparr>
           in case inet_pton os host of
                None \<Rightarrow>
                  (- 1, call_close os (int fd)
                          (cerr [S ''inet_pton failed for host: '', S host, S ''\<newline>''] st1))
              | Some a \<Rightarrow>
                  (case call_connect os (int fd) (addr\<lparr>sin_addr := a\<rparr>) st1 of
                     (Fail e, st2) \<Rightarrow>
                       (- 1, call_close os (int fd)
                               (cerr [S ''connect() failed: '', S (strerror os e), S ''\<newline>''] st2))
                   | (Ok u, st2) \<Rightarrow> (int fd, st2))))"

definition listen_and_accept :: "'w os \<Rightarrow> 32 word \<Rightarrow> 'w state \<Rightarrow> int \<times> 'w state" where
  "listen_and_accept os port st =
     (case call_socket os st of
        (Fail e, st1) \<Rightarrow>
          (- 1, cerr [S ''socket() failed: '', S (strerror os e), S ''\<newline>''] st1)
      | (Ok fd, st1) \<Rightarrow>
          (let listen_fd = int fd;
               st2 = call_setsockopt os listen_fd st1;
               addr = zero_addr\<lparr>sin_family := AF_INET,
                                 sin_addr := INADDR_ANY,
                                 sin_port := htons (static_cast_uint16 port)\<rparr>
           in case call_bind os listen_fd addr st2 of
                (Fail e, st3) \<Rightarrow>
                  (- 1, call_close os listen_fd
                          (cerr [S ''bind() failed: '', S (strerror os e), S ''\<newline>''] st3))
              | (Ok u, st3) \<Rightarrow>
                  (case call_listen os listen_fd 1 st3 of
                     (Fail e, st4) \<Rightarrow>
                       (- 1, call_close os listen_fd
                               (cerr [S ''listen() failed: '', S (strerror os e), S ''\<newline>''] st4))
                   | (Ok u', st4) \<Rightarrow>
                       (let st5 = cout [S ''listening on port '', I (sint port),
                                        S '' ... waiting for one peer\<newline>''] st4
                        in case call_accept os listen_fd st5 of
                             (Fail e, st6) \<Rightarrow>
                               (- 1, call_close os listen_fd
                                       (cerr [S ''accept() failed: '', S (strerror os e),
                                              S ''\<newline>''] st6))
                           | (Ok (conn_fd, peer_addr), st6) \<Rightarrow>
                               (let ip_text = inet_ntop os (sin_addr peer_addr);
                                    peer_port = uint (ntohs (sin_port peer_addr));
                                    st7 = cout [S ''connected to peer '', S ip_text, S '':'',
                                                I peer_port, S ''\<newline>''] st6
                                in (int conn_fd, call_close os listen_fd st7))))))"

section \<open>The session loop of the line program\<close>

text \<open>
  One round of \<^verbatim>\<open>while (true)\<close> ends in one of three ways: it falls off the end of
  the body, it runs \<^verbatim>\<open>continue\<close>, or it runs \<^verbatim>\<open>break\<close>. The loop itself runs rounds
  until one breaks; a round that never returns, or rounds without end, are the value
  \<^term>\<open>None\<close>.
\<close>

datatype ctl = Next | Continue | Break

partial_function (option) while_true :: "('s \<Rightarrow> (ctl \<times> 's) option) \<Rightarrow> 's \<Rightarrow> 's option" where
  "while_true body s =
     (case body s of
        None \<Rightarrow> None
      | Some (Break, s') \<Rightarrow> Some s'
      | Some (c, s') \<Rightarrow> while_true body s')"

declare while_true.simps [code]

text \<open>The states in which the loop is at the head of a round.\<close>

inductive loop_reach :: "('s \<Rightarrow> (ctl \<times> 's) option) \<Rightarrow> 's \<Rightarrow> 's \<Rightarrow> bool"
  for body :: "'s \<Rightarrow> (ctl \<times> 's) option" and start :: 's where
  loop_reach_start: "loop_reach body start start"
| loop_reach_round:
    "loop_reach body start s \<Longrightarrow> body s = Some (c, s') \<Longrightarrow> c \<noteq> Break \<Longrightarrow>
     loop_reach body start s'"

code_pred loop_reach .

text \<open>\<^verbatim>\<open>tcp_peer.cpp\<close>, lines 172 to 184 (and 242 to 253): the keyboard is ready.\<close>

definition on_stdin :: "'w os \<Rightarrow> int \<Rightarrow> 'w state \<Rightarrow> (ctl \<times> 'w state) option" where
  "on_stdin os socket_fd st =
     (case call_getline os st of
        (None, st1) \<Rightarrow> Some (Break, cout [S ''stdin closed; goodbye\<newline>''] st1)
      | (Some line, st1) \<Rightarrow>
          (case send_all_bytes os socket_fd (line @ [nl]) st1 of
             None \<Rightarrow> None
           | Some (sent, st2) \<Rightarrow>
               if \<not> sent then Some (Break, cerr [S ''failed to send to peer\<newline>''] st2)
               else Some (Next, st2)))"

text \<open>Lines 187 to 211 (and 255 to 276): the socket is ready.\<close>

definition print_lines :: "string list \<Rightarrow> 'w state \<Rightarrow> 'w state" where
  "print_lines ls st = fold (\<lambda>one_line. cout [S ''[peer] '', S one_line, S ''\<newline>'']) ls st"

definition on_socket ::
  "'w os \<Rightarrow> int \<Rightarrow> 'w state \<times> string \<Rightarrow> ctl \<times> 'w state \<times> string" where
  "on_socket os socket_fd s =
     (let (st, incoming_buffer) = s
      in case call_recv os socket_fd 4096 st of
           (Ok chunk, st1) \<Rightarrow>
             if length chunk = 0 then
               (Break, cout [S ''peer disconnected\<newline>''] st1, incoming_buffer)
             else
               (let (ls, final_buffer) = frame_chunk incoming_buffer chunk
                in (Next, print_lines ls st1, final_buffer))
         | (Fail e, st1) \<Rightarrow>
             if e = EINTR then (Continue, st1, incoming_buffer)
             else (Break, cerr [S ''recv() failed: '', S (strerror os e), S ''\<newline>''] st1,
                   incoming_buffer))"

text \<open>
  Lines 155 to 212 (and, the same text, 228 to 277): one round. The state of the loop
  is the state of the program and \<^verbatim>\<open>incoming_buffer\<close>.
\<close>

definition pump_iteration ::
  "'w os \<Rightarrow> int \<Rightarrow> 'w state \<times> string \<Rightarrow> (ctl \<times> 'w state \<times> string) option" where
  "pump_iteration os socket_fd s =
     (let (st, incoming_buffer) = s;
          max_fd = (if socket_fd > 0 then socket_fd else 0)
      in case call_select os (max_fd + 1) st of
           (Fail e, st1) \<Rightarrow>
             if e = EINTR then Some (Continue, st1, incoming_buffer)
             else Some (Break, cerr [S ''select() failed: '', S (strerror os e), S ''\<newline>''] st1,
                        incoming_buffer)
         | (Ok read_set, st1) \<Rightarrow>
             (case (if 0 \<in> read_set then on_stdin os socket_fd st1 else Some (Next, st1)) of
                None \<Rightarrow> None
              | Some (Next, st2) \<Rightarrow>
                  if socket_fd \<in> read_set then Some (on_socket os socket_fd (st2, incoming_buffer))
                  else Some (Next, st2, incoming_buffer)
              | Some (c, st2) \<Rightarrow> Some (c, st2, incoming_buffer)))"

section \<open>main of the line program\<close>

text \<open>
  \<^verbatim>\<open>main\<close> returns a status, or it is left by the exception \<^verbatim>\<open>std::stoi\<close> throws
  (nothing catches it), or, with an empty \<^verbatim>\<open>argv\<close>, it hands the null pointer
  \<^verbatim>\<open>argv[0]\<close> to \<^verbatim>\<open>operator<<\<close>, which the language leaves undefined.
  Lines 148 to 215 and 224 to 280 are the same text: \<open>run_session\<close>, which starts
  with the empty buffer.
\<close>

datatype outcome = Returned int | Uncaught_exception | Undefined

definition run_session :: "'w os \<Rightarrow> int \<Rightarrow> 'w state \<Rightarrow> (outcome \<times> 'w state) option" where
  "run_session os socket_fd st =
     (case while_true (pump_iteration os socket_fd)
             (cout [S ''type a message and press Enter to send; Ctrl+D to quit\<newline>''] st, []) of
        None \<Rightarrow> None
      | Some (st', incoming_buffer) \<Rightarrow> Some (Returned 0, call_close os socket_fd st'))"

definition usage :: "string \<Rightarrow> piece list" where
  "usage argv0 =
     [S ''Usage:\<newline>'',
      S ''  '', S argv0, S '' --listen <port>\<newline>'',
      S ''  '', S argv0, S '' --connect <host> <port>\<newline>'']"

definition main :: "'w os \<Rightarrow> string list \<Rightarrow> 'w state \<Rightarrow> (outcome \<times> 'w state) option" where
  "main os argv st =
     (if length argv \<ge> 3 \<and> argv ! 1 = ''--listen'' then
        (case stoi os (argv ! 2) of
           None \<Rightarrow> Some (Uncaught_exception, st)
         | Some port \<Rightarrow>
             (let (socket_fd, st1) = listen_and_accept os port st
              in if socket_fd < 0 then Some (Returned 1, st1)
                 else run_session os socket_fd st1))
      else if length argv \<ge> 4 \<and> argv ! 1 = ''--connect'' then
        (let host = argv ! 2
         in case stoi os (argv ! 3) of
              None \<Rightarrow> Some (Uncaught_exception, st)
            | Some port \<Rightarrow>
                (let (socket_fd, st1) = connect_to_peer os host port st
                 in if socket_fd < 0 then Some (Returned 1, st1)
                    else run_session os socket_fd
                           (cout [S ''connected to '', S host, S '':'', I (sint port),
                                  S ''\<newline>''] st1)))
      else
        (case argv of
           [] \<Rightarrow> Some (Undefined, st)
         | argv0 # rest \<Rightarrow> Some (Returned 1, cerr (usage argv0) st)))"

section \<open>The keystroke program\<close>

text \<open>
  The second program (\<^verbatim>\<open>tcp_stream_peer.cpp\<close>) shares \<^verbatim>\<open>send_all_bytes\<close>,
  \<^verbatim>\<open>connect_to_peer\<close> and \<^verbatim>\<open>listen_and_accept\<close> with the first. It puts the terminal
  into raw mode, sends every key as it is pressed and prints what arrives as it is.
  \<^verbatim>\<open>
  struct TerminalRawGuard {
    termios original{};
    bool active{false};
    bool enable() {
      if (tcgetattr(STDIN_FILENO, &original) != 0) {
        std::cerr << "tcgetattr failed: " << std::strerror(errno) << "\n";
        return false;
      }
      termios raw = original;
      raw.c_lflag &= ~ICANON;
      raw.c_lflag &= ~ECHO;
      raw.c_cc[VMIN]  = 1;
      raw.c_cc[VTIME] = 0;
      if (tcsetattr(STDIN_FILENO, TCSANOW, &raw) != 0) {
        std::cerr << "tcsetattr failed: " << std::strerror(errno) << "\n";
        return false;
      }
      active = true;
      return true;
    }
    ~TerminalRawGuard() {
      if (active) {
        tcsetattr(STDIN_FILENO, TCSANOW, &original);
      }
    }
  };
  \<close>
\<close>

record TerminalRawGuard =
  original :: termios
  active :: bool

definition new_guard :: TerminalRawGuard where
  "new_guard =
     \<lparr>original = \<lparr>c_iflag = 0, c_oflag = 0, c_cflag = 0, c_lflag = 0, c_cc = (\<lambda>i. 0)\<rparr>,
      active = False\<rparr>"

definition enable ::
  "'w os \<Rightarrow> TerminalRawGuard \<Rightarrow> 'w state \<Rightarrow> bool \<times> TerminalRawGuard \<times> 'w state" where
  "enable os guard st =
     (case call_tcgetattr os STDIN_FILENO st of
        (Fail e, st1) \<Rightarrow>
          (False, guard, cerr [S ''tcgetattr failed: '', S (strerror os e), S ''\<newline>''] st1)
      | (Ok t, st1) \<Rightarrow>
          (let guard1 = guard\<lparr>original := t\<rparr>;
               raw1 = t\<lparr>c_lflag := and (c_lflag t) (not (ICANON os))\<rparr>;
               raw2 = raw1\<lparr>c_lflag := and (c_lflag raw1) (not (ECHO os))\<rparr>;
               raw3 = raw2\<lparr>c_cc := (c_cc raw2)(VMIN os := 1)\<rparr>;
               raw = raw3\<lparr>c_cc := (c_cc raw3)(VTIME os := 0)\<rparr>
           in case call_tcsetattr os STDIN_FILENO raw st1 of
                (Fail e, st2) \<Rightarrow>
                  (False, guard1,
                   cerr [S ''tcsetattr failed: '', S (strerror os e), S ''\<newline>''] st2)
              | (Ok u, st2) \<Rightarrow> (True, guard1\<lparr>active := True\<rparr>, st2)))"

definition destroy_guard :: "'w os \<Rightarrow> TerminalRawGuard \<Rightarrow> 'w state \<Rightarrow> 'w state" where
  "destroy_guard os guard st =
     (if active guard then snd (call_tcsetattr os STDIN_FILENO (original guard) st) else st)"

text \<open>Lines 205 to 226 of the keystroke program (and 278 to 295): a key was pressed.\<close>

definition stream_on_stdin :: "'w os \<Rightarrow> int \<Rightarrow> 'w state \<Rightarrow> (ctl \<times> 'w state) option" where
  "stream_on_stdin os sock st =
     (case call_read os STDIN_FILENO 1 st of
        (Ok ch, st1) \<Rightarrow>
          if length ch = 1 then
            (let st2 = call_write os STDOUT_FILENO ch st1
             in case send_all_bytes os sock ch st2 of
                  None \<Rightarrow> None
                | Some (sent, st3) \<Rightarrow>
                    if \<not> sent then
                      Some (Break, cerr [S ''\<newline>failed to send to peer\<newline>''] st3)
                    else Some (Next, st3))
          else Some (Break, cout [S ''\<newline>stdin closed\<newline>''] st1)
      | (Fail e, st1) \<Rightarrow>
          if e = EINTR then Some (Continue, st1)
          else Some (Break, cerr [S ''\<newline>read(stdin) failed: '', S (strerror os e),
                                  S ''\<newline>''] st1))"

text \<open>Lines 229 to 243 (and 297 to 310): the socket is ready.\<close>

definition stream_on_socket :: "'w os \<Rightarrow> int \<Rightarrow> 'w state \<Rightarrow> ctl \<times> 'w state" where
  "stream_on_socket os sock st =
     (case call_recv os sock 4096 st of
        (Ok buf, st1) \<Rightarrow>
          if length buf = 0 then (Break, cout [S ''\<newline>peer disconnected\<newline>''] st1)
          else (Next, call_write os STDOUT_FILENO buf st1)
      | (Fail e, st1) \<Rightarrow>
          if e = EINTR then (Continue, st1)
          else (Break, cerr [S ''\<newline>recv() failed: '', S (strerror os e), S ''\<newline>''] st1))"

definition stream_iteration :: "'w os \<Rightarrow> int \<Rightarrow> 'w state \<Rightarrow> (ctl \<times> 'w state) option" where
  "stream_iteration os sock st =
     (let max_fd = (if sock > STDIN_FILENO then sock else STDIN_FILENO)
      in case call_select os (max_fd + 1) st of
           (Fail e, st1) \<Rightarrow>
             if e = EINTR then Some (Continue, st1)
             else Some (Break, cerr [S ''select() failed: '', S (strerror os e), S ''\<newline>''] st1)
         | (Ok read_set, st1) \<Rightarrow>
             (case (if STDIN_FILENO \<in> read_set then stream_on_stdin os sock st1
                    else Some (Next, st1)) of
                None \<Rightarrow> None
              | Some (Next, st2) \<Rightarrow>
                  if sock \<in> read_set then Some (stream_on_socket os sock st2)
                  else Some (Next, st2)
              | Some (c, st2) \<Rightarrow> Some (c, st2)))"

text \<open>
  Lines 179 to 247 and 255 to 314 are the same text. The guard is destroyed when
  \<^verbatim>\<open>main\<close> returns, after \<^verbatim>\<open>close\<close>.
\<close>

definition stream_session :: "'w os \<Rightarrow> int \<Rightarrow> 'w state \<Rightarrow> (outcome \<times> 'w state) option" where
  "stream_session os sock st =
     (let (enabled, raw, st1) = enable os new_guard st
      in if \<not> enabled then
           Some (Returned 1,
                 destroy_guard os raw
                   (call_close os sock
                      (cerr [S ''failed to enable raw terminal mode\<newline>''] st1)))
         else
           (case while_true (stream_iteration os sock)
                   (cout [S ''Real-time: type to send. Press Ctrl-C to quit.\<newline>''] st1) of
              None \<Rightarrow> None
            | Some st2 \<Rightarrow> Some (Returned 0, destroy_guard os raw (call_close os sock st2))))"

definition stream_main ::
  "'w os \<Rightarrow> string list \<Rightarrow> 'w state \<Rightarrow> (outcome \<times> 'w state) option" where
  "stream_main os argv st =
     (if length argv \<ge> 3 \<and> argv ! 1 = ''--listen'' then
        (case stoi os (argv ! 2) of
           None \<Rightarrow> Some (Uncaught_exception, st)
         | Some port \<Rightarrow>
             (let (sock, st1) = listen_and_accept os port st
              in if sock < 0 then Some (Returned 1, st1)
                 else stream_session os sock st1))
      else if length argv \<ge> 4 \<and> argv ! 1 = ''--connect'' then
        (let host = argv ! 2
         in case stoi os (argv ! 3) of
              None \<Rightarrow> Some (Uncaught_exception, st)
            | Some port \<Rightarrow>
                (let (sock, st1) = connect_to_peer os host port st
                 in if sock < 0 then Some (Returned 1, st1)
                    else stream_session os sock st1))
      else
        (case argv of
           [] \<Rightarrow> Some (Undefined, st)
         | argv0 # rest \<Rightarrow> Some (Returned 1, cerr (usage argv0) st)))"

section \<open>Where a run of main stands\<close>

text \<open>
  The descriptor and the state with which \<open>main\<close> enters \<open>run_session\<close>, and the
  state in which it returns 1 because \<^verbatim>\<open>listen_and_accept\<close> or \<^verbatim>\<open>connect_to_peer\<close>
  returned a negative descriptor: both read off the text of \<open>main\<close>.
\<close>

definition session_start :: "'w os \<Rightarrow> string list \<Rightarrow> 'w state \<Rightarrow> (int \<times> 'w state) option" where
  "session_start os argv st =
     (if length argv \<ge> 3 \<and> argv ! 1 = ''--listen'' then
        (case stoi os (argv ! 2) of
           None \<Rightarrow> None
         | Some port \<Rightarrow>
             (let (socket_fd, st1) = listen_and_accept os port st
              in if socket_fd < 0 then None else Some (socket_fd, st1)))
      else if length argv \<ge> 4 \<and> argv ! 1 = ''--connect'' then
        (case stoi os (argv ! 3) of
           None \<Rightarrow> None
         | Some port \<Rightarrow>
             (let (socket_fd, st1) = connect_to_peer os (argv ! 2) port st
              in if socket_fd < 0 then None
                 else Some (socket_fd,
                            cout [S ''connected to '', S (argv ! 2), S '':'', I (sint port),
                                  S ''\<newline>''] st1)))
      else None)"

definition setup_failure :: "'w os \<Rightarrow> string list \<Rightarrow> 'w state \<Rightarrow> 'w state option" where
  "setup_failure os argv st =
     (if length argv \<ge> 3 \<and> argv ! 1 = ''--listen'' then
        (case stoi os (argv ! 2) of
           None \<Rightarrow> None
         | Some port \<Rightarrow>
             (let (socket_fd, st1) = listen_and_accept os port st
              in if socket_fd < 0 then Some st1 else None))
      else if length argv \<ge> 4 \<and> argv ! 1 = ''--connect'' then
        (case stoi os (argv ! 3) of
           None \<Rightarrow> None
         | Some port \<Rightarrow>
             (let (socket_fd, st1) = connect_to_peer os (argv ! 2) port st
              in if socket_fd < 0 then Some st1 else None))
      else None)"

text \<open>The same for the keystroke program, whose session starts once raw mode is on.\<close>

definition stream_start ::
  "'w os \<Rightarrow> string list \<Rightarrow> 'w state \<Rightarrow> (int \<times> TerminalRawGuard \<times> 'w state) option" where
  "stream_start os argv st =
     (case (if length argv \<ge> 3 \<and> argv ! 1 = ''--listen'' then
              (case stoi os (argv ! 2) of
                 None \<Rightarrow> None
               | Some port \<Rightarrow> Some (listen_and_accept os port st))
            else if length argv \<ge> 4 \<and> argv ! 1 = ''--connect'' then
              (case stoi os (argv ! 3) of
                 None \<Rightarrow> None
               | Some port \<Rightarrow> Some (connect_to_peer os (argv ! 2) port st))
            else None) of
        None \<Rightarrow> None
      | Some (sock, st1) \<Rightarrow>
          if sock < 0 then None
          else (let (enabled, raw, st2) = enable os new_guard st1
                in if enabled then Some (sock, raw, st2) else None))"

definition stream_greeting :: "'w state \<Rightarrow> 'w state" where
  "stream_greeting st = cout [S ''Real-time: type to send. Press Ctrl-C to quit.\<newline>''] st"

definition session_greeting :: "'w state \<Rightarrow> 'w state \<times> string" where
  "session_greeting st =
     (cout [S ''type a message and press Enter to send; Ctrl+D to quit\<newline>''] st, [])"

section \<open>Observing a trace\<close>

text \<open>
  The bytes the kernel took from the \<^verbatim>\<open>send\<close> calls on a descriptor, in order, and the
  number of those calls.
\<close>

fun sent_bytes :: "int \<Rightarrow> event \<Rightarrow> string" where
  "sent_bytes fd (EvSend fd' data (Ok n)) = (if fd' = fd then take n data else [])"
| "sent_bytes fd ev = []"

definition transmitted :: "int \<Rightarrow> event list \<Rightarrow> string" where
  "transmitted fd tr = concat (map (sent_bytes fd) tr)"

fun is_send :: "int \<Rightarrow> event \<Rightarrow> bool" where
  "is_send fd (EvSend fd' data r) = (fd' = fd)"
| "is_send fd ev = False"

definition send_calls :: "int \<Rightarrow> event list \<Rightarrow> nat" where
  "send_calls fd tr = length (filter (is_send fd) tr)"

text \<open>
  What a returned \<open>send_loop\<close> has done: it sent a prefix of the bytes and nothing
  else, and it answers \<^verbatim>\<open>true\<close> exactly when nothing was left over.
\<close>

definition send_post :: "int \<Rightarrow> string \<Rightarrow> 'w state \<Rightarrow> bool \<times> 'w state \<Rightarrow> bool" where
  "send_post fd data st y \<longleftrightarrow>
     (\<exists>sent rest. data = sent @ rest
        \<and> transmitted fd (trace (snd y)) = transmitted fd (trace st) @ sent
        \<and> (fst y \<longleftrightarrow> rest = []))"

text \<open>The ports handed to \<^verbatim>\<open>bind\<close> and to \<^verbatim>\<open>connect\<close>, as the kernel reads them.\<close>

fun bound_port :: "event \<Rightarrow> int list" where
  "bound_port (EvBind fd addr r) = [uint (ntohs (sin_port addr))]"
| "bound_port ev = []"

definition bind_ports :: "event list \<Rightarrow> int list" where
  "bind_ports tr = concat (map bound_port tr)"

fun dialled_port :: "event \<Rightarrow> int list" where
  "dialled_port (EvConnect fd addr r) = [uint (ntohs (sin_port addr))]"
| "dialled_port ev = []"

definition connect_ports :: "event list \<Rightarrow> int list" where
  "connect_ports tr = concat (map dialled_port tr)"

text \<open>
  Two ways a state can follow another: by events none of which is a \<^verbatim>\<open>recv\<close>; and, for
  the part of a round that handles the socket, either by a \<^verbatim>\<open>recv\<close> that returned 0
  and the message that reports it, with \<^verbatim>\<open>break\<close>, or by events none of which is a
  \<^verbatim>\<open>recv\<close> that returned 0.
\<close>

fun is_recv :: "event \<Rightarrow> bool" where
  "is_recv (EvRecv fd r) = True"
| "is_recv ev = False"

definition extends_quietly :: "'w state \<Rightarrow> 'w state \<Rightarrow> bool" where
  "extends_quietly st st' \<longleftrightarrow> (\<exists>evs. trace st' = trace st @ evs \<and> (\<forall>ev \<in> set evs. \<not> is_recv ev))"

definition peer_close_or_not ::
  "int \<Rightarrow> piece list \<Rightarrow> ctl \<Rightarrow> 'w state \<Rightarrow> 'w state \<Rightarrow> bool" where
  "peer_close_or_not fd msg c st st' \<longleftrightarrow>
     (c = Break \<and> trace st' = trace st @ [EvRecv fd (Ok []), Cout msg])
     \<or> (\<exists>evs. trace st' = trace st @ evs \<and> EvRecv fd (Ok []) \<notin> set evs)"



section \<open>A scripted world\<close>

text \<open>
  A concrete world to run the programs in: the answers of \<^verbatim>\<open>accept\<close>, \<^verbatim>\<open>select\<close>,
  \<^verbatim>\<open>getline\<close>, \<^verbatim>\<open>read\<close>, \<^verbatim>\<open>send\<close> and \<^verbatim>\<open>recv\<close> are read off lists, one per
  call (an exhausted list answers with the error 5, \<^verbatim>\<open>EIO\<close>, and the keyboard with
  end of input); the other calls succeed. The terminal constants are those of Linux.
\<close>

record script =
  accepts :: "(nat \<times> sockaddr_in) sysret list"
  selects :: "int set sysret list"
  getlines :: "string option list"
  reads :: "string sysret list"
  sends :: "nat sysret list"
  recvs :: "string sysret list"

definition scripted :: "script os" where
  "scripted =
     \<lparr>stoi = (\<lambda>s. if s = ''3333'' then Some 3333 else None),
      strerror = (\<lambda>e. if e = EINTR then ''Interrupted system call''
                      else if e = 12 then ''Cannot allocate memory''
                      else ''Input/output error''),
      inet_pton = (\<lambda>host. if host = ''127.0.0.1'' then Some 0x7F000001 else None),
      inet_ntop = (\<lambda>a. ''127.0.0.1''),
      sys_socket = (\<lambda>w. (Ok 3, w)),
      sys_setsockopt = (\<lambda>w fd. w),
      sys_bind = (\<lambda>w fd addr. (Ok (), w)),
      sys_listen = (\<lambda>w fd backlog. (Ok (), w)),
      sys_accept = (\<lambda>w fd. case accepts w of [] \<Rightarrow> (Fail 5, w)
                                | r # rs \<Rightarrow> (r, w\<lparr>accepts := rs\<rparr>)),
      sys_connect = (\<lambda>w fd addr. (Ok (), w)),
      sys_select = (\<lambda>w nfds. case selects w of [] \<Rightarrow> (Fail 5, w)
                                  | r # rs \<Rightarrow> (r, w\<lparr>selects := rs\<rparr>)),
      sys_getline = (\<lambda>w. case getlines w of [] \<Rightarrow> (None, w)
                              | r # rs \<Rightarrow> (r, w\<lparr>getlines := rs\<rparr>)),
      sys_send = (\<lambda>w fd data. case sends w of [] \<Rightarrow> (Fail 5, w)
                                   | r # rs \<Rightarrow> (r, w\<lparr>sends := rs\<rparr>)),
      sys_recv = (\<lambda>w fd len. case recvs w of [] \<Rightarrow> (Fail 5, w)
                                  | r # rs \<Rightarrow> (r, w\<lparr>recvs := rs\<rparr>)),
      sys_close = (\<lambda>w fd. w),
      ICANON = 2,
      ECHO = 8,
      VMIN = 6,
      VTIME = 5,
      sys_tcgetattr = (\<lambda>w fd. (Ok \<lparr>c_iflag = 0, c_oflag = 0, c_cflag = 0, c_lflag = 10,
                                       c_cc = (\<lambda>i. 0)\<rparr>, w)),
      sys_tcsetattr = (\<lambda>w fd t. (Ok (), w)),
      sys_read = (\<lambda>w fd len. case reads w of [] \<Rightarrow> (Ok [], w)
                                  | r # rs \<Rightarrow> (r, w\<lparr>reads := rs\<rparr>)),
      sys_write = (\<lambda>w fd bytes. w)\<rparr>"

definition quiet :: script where
  "quiet = \<lparr>accepts = [], selects = [], getlines = [], reads = [], sends = [], recvs = []\<rparr>"

definition peer :: sockaddr_in where
  "peer = \<lparr>sin_family = AF_INET, sin_port = htons 50000, sin_addr = 0x7F000001\<rparr>"

text \<open>A world whose \<^verbatim>\<open>send\<close> takes at most \<open>k\<close> bytes in every call.\<close>

definition capped :: "nat \<Rightarrow> script os" where
  "capped k = scripted\<lparr>sys_send := (\<lambda>w fd data. (Ok k, w))\<rparr>"

text \<open>The state of a program that has not done anything yet, in the world where nothing is scripted.\<close>

definition blank :: "script state" where
  "blank = \<lparr>world = quiet, trace = []\<rparr>"

section \<open>Runs in the scripted world\<close>

text \<open>
  The command line \<^verbatim>\<open>tcp_peer --listen 3333\<close>, and what a run has done once one peer
  is accepted on descriptor 4 and the session has printed its greeting.
\<close>

definition listen_argv :: "string list" where
  "listen_argv = [''tcp_peer'', ''--listen'', ''3333'']"

definition accepted :: "event list" where
  "accepted =
     [EvSocket (Ok 3), EvSetsockopt 3,
      EvBind 3 \<lparr>sin_family = AF_INET, sin_port = htons 3333, sin_addr = INADDR_ANY\<rparr> (Ok ()),
      EvListen 3 1 (Ok ()),
      Cout [S ''listening on port '', I 3333, S '' ... waiting for one peer\<newline>''],
      EvAccept 3 (Ok (4, peer)),
      Cout [S ''connected to peer '', S ''127.0.0.1'', S '':'', I 50000, S ''\<newline>''],
      EvClose 3]"

definition greeted :: "event list" where
  "greeted = accepted @ [Cout [S ''type a message and press Enter to send; Ctrl+D to quit\<newline>'']]"

text \<open>
  First run: the peer sends \<^verbatim>\<open>ping\<close>, a delimiter and \<^verbatim>\<open>pin\<close> in one chunk, then
  closes. The states are the start, the state after the setup, the head of the second
  round and the end of the second round.
\<close>

definition e1_start :: "script state" where
  "e1_start =
     \<lparr>world = quiet\<lparr>accepts := [Ok (4, peer)], selects := [Ok {4}, Ok {4}],
                     recvs := [Ok ''ping\<newline>pin'', Ok []]\<rparr>,
      trace = []\<rparr>"

definition e1_session :: "script state" where
  "e1_session =
     \<lparr>world = quiet\<lparr>selects := [Ok {4}, Ok {4}], recvs := [Ok ''ping\<newline>pin'', Ok []]\<rparr>,
      trace = accepted\<rparr>"

definition e1_head :: "script state" where
  "e1_head =
     \<lparr>world = quiet\<lparr>selects := [Ok {4}], recvs := [Ok []]\<rparr>,
      trace = greeted @ [EvSelect 5 (Ok {4}), EvRecv 4 (Ok ''ping\<newline>pin''),
                         Cout [S ''[peer] '', S ''ping'', S ''\<newline>'']]\<rparr>"

definition e1_end :: "script state" where
  "e1_end =
     \<lparr>world = quiet,
      trace = trace e1_head @ [EvSelect 5 (Ok {4}), EvRecv 4 (Ok []),
                               Cout [S ''peer disconnected\<newline>'']]\<rparr>"









text \<open>
  Sixth run, of the keystroke program: the terminal is in canonical mode with echo
  (\<open>cooked\<close>), and the peer closes at once.
\<close>

definition cooked :: termios where
  "cooked = \<lparr>c_iflag = 0, c_oflag = 0, c_cflag = 0, c_lflag = 10, c_cc = (\<lambda>i. 0)\<rparr>"

definition e6_start :: "script state" where
  "e6_start =
     \<lparr>world = quiet\<lparr>accepts := [Ok (4, peer)], selects := [Ok {4}], recvs := [Ok []]\<rparr>,
      trace = []\<rparr>"

definition e6_session :: "script state" where
  "e6_session =
     \<lparr>world = quiet\<lparr>selects := [Ok {4}], recvs := [Ok []]\<rparr>,
      trace = accepted @
        [EvTcgetattr 0 (Ok cooked),
         EvTcsetattr 0 (cooked\<lparr>c_lflag := 0, c_cc := (\<lambda>i. 0)(6 := 1, 5 := 0)\<rparr>) (Ok ())]\<rparr>"

definition e6_end :: "script state" where
  "e6_end =
     \<lparr>world = quiet,
      trace = trace (stream_greeting e6_session) @
        [EvSelect 5 (Ok {4}), EvRecv 4 (Ok []), Cout [S ''\<newline>peer disconnected\<newline>'']]\<rparr>"

text \<open>
  Seventh run, at the head of a round with the buffer \<^verbatim>\<open>ab\<close>: the peer sends two
  delimiters, \<^verbatim>\<open>hi\<close> and a delimiter in one chunk.
\<close>

definition e7_head :: "script state" where
  "e7_head = \<lparr>world = quiet\<lparr>recvs := [Ok ''\<newline>\<newline>hi\<newline>'']\<rparr>, trace = greeted\<rparr>"

definition e7_received :: "script state" where
  "e7_received = \<lparr>world = quiet, trace = greeted @ [EvRecv 4 (Ok ''\<newline>\<newline>hi\<newline>'')]\<rparr>"

definition e7_printed :: "script state" where
  "e7_printed =
     \<lparr>world = quiet,
      trace = trace e7_received @
        [Cout [S ''[peer] '', S ''ab'', S ''\<newline>''],
         Cout [S ''[peer] '', S [], S ''\<newline>''],
         Cout [S ''[peer] '', S ''hi'', S ''\<newline>'']]\<rparr>"



section \<open>Facts about the framing loop\<close>

lemma str_find_None_iff: "str_find s c = None \<longleftrightarrow> c \<notin> set s"
  by (induction s) auto

lemma str_find_append: "c \<notin> set a \<Longrightarrow> str_find (a @ c # b) c = Some (length a)"
  by (induction a) auto

lemma pull_lines_no_nl: "nl \<notin> set b \<Longrightarrow> pull_lines b = ([], b)"
  by (subst pull_lines.simps) (simp add: str_find_None_iff [THEN iffD2])

lemma pull_lines_line:
  "nl \<notin> set a \<Longrightarrow> pull_lines (a @ nl # b) = (a # fst (pull_lines b), snd (pull_lines b))"
  by (subst pull_lines.simps)
     (simp add: str_find_append substr_def erase_def split: prod.split)

lemma buffer_cases:
  obtains "nl \<notin> set b" | a c where "b = a @ nl # c" "nl \<notin> set a"
  by (meson split_list_first)

lemma pull_lines_append:
  "pull_lines (a @ b) =
     (fst (pull_lines a) @ fst (pull_lines (snd (pull_lines a) @ b)),
      snd (pull_lines (snd (pull_lines a) @ b)))"
proof (induction a rule: length_induct)
  case (1 a)
  show ?case
  proof (cases a rule: buffer_cases)
    case 1
    then show ?thesis by (simp add: pull_lines_no_nl)
  next
    case (2 p q)
    have "length q < length a" using 2 by simp
    with 1 have IH: "pull_lines (q @ b) =
     (fst (pull_lines q) @ fst (pull_lines (snd (pull_lines q) @ b)),
      snd (pull_lines (snd (pull_lines q) @ b)))" by blast
    show ?thesis using 2 IH by (simp add: pull_lines_line)
  qed
qed

lemma pull_lines_rest_no_nl: "nl \<notin> set (snd (pull_lines b))"
proof (induction b rule: length_induct)
  case (1 b)
  show ?case
  proof (cases b rule: buffer_cases)
    case 1
    then show ?thesis by (simp add: pull_lines_no_nl)
  next
    case (2 p q)
    have "length q < length b" using 2 by simp
    with 1 have "nl \<notin> set (snd (pull_lines q))" by blast
    then show ?thesis using 2 by (simp add: pull_lines_line)
  qed
qed

lemma pull_lines_count: "length (fst (pull_lines b)) = count_list b nl"
proof (induction b rule: length_induct)
  case (1 b)
  show ?case
  proof (cases b rule: buffer_cases)
    case 1
    then show ?thesis by (simp add: pull_lines_no_nl)
  next
    case (2 p q)
    have "length q < length b" using 2 by simp
    with 1 have "length (fst (pull_lines q)) = count_list q nl" by blast
    then show ?thesis using 2 by (simp add: pull_lines_line)
  qed
qed

lemma feed_chunks_pull_lines:
  "nl \<notin> set buffer \<Longrightarrow> feed_chunks buffer chunks = pull_lines (buffer @ concat chunks)"
proof (induction chunks arbitrary: buffer)
  case Nil
  then show ?case by (simp add: pull_lines_no_nl)
next
  case (Cons c cs)
  have "nl \<notin> set (snd (pull_lines (buffer @ c)))" by (rule pull_lines_rest_no_nl)
  from Cons.IH [OF this] show ?case
    by (simp add: frame_chunk_def split: prod.split)
       (metis pull_lines_append append.assoc fst_conv snd_conv)
qed

text \<open>
  C1. Framing idempotence: whatever way a byte sequence is cut into chunks, empty or
  not, running the receive path on the chunks one after the other, from the empty
  buffer, gives the same lines in the same order, and leaves the same buffer behind,
  as running it once on the whole sequence.
\<close>

theorem framing_idempotence:
  "feed_chunks [] chunks = frame_chunk [] (concat chunks)"
proof -
  have "nl \<notin> set []"
    by simp
  then have "feed_chunks [] chunks = pull_lines ([] @ concat chunks)"
    by (rule feed_chunks_pull_lines)
  then show ?thesis
    by (simp add: frame_chunk_def)
qed

text \<open>
  C2. No data loss or duplication: the extracted lines, each followed by the delimiter
  that was cut off it, followed by the buffer that is left, are the input byte for
  byte.
\<close>

theorem no_loss_no_duplication:
  "concat (map (\<lambda>m. m @ [nl]) (fst (pull_lines input))) @ snd (pull_lines input) = input"
proof (induction input rule: length_induct)
  case (1 input)
  show ?case
  proof (cases input rule: buffer_cases)
    case 1
    then show ?thesis
      by (simp add: pull_lines_no_nl)
  next
    case (2 one_line rest)
    then have "length rest < length input"
      by simp
    with 1 have "concat (map (\<lambda>m. m @ [nl]) (fst (pull_lines rest))) @ snd (pull_lines rest) = rest"
      by blast
    with 2 show ?thesis
      by (simp add: pull_lines_line)
  qed
qed

section \<open>Facts about traces and loops\<close>


lemma trace_log [simp]: "trace (log ev w st) = trace st @ [ev]"
  by (simp add: log_def)

lemma world_log [simp]: "world (log ev w st) = w"
  by (simp add: log_def)

lemma trace_cout [simp]: "trace (cout ps st) = trace st @ [Cout ps]"
  by (simp add: cout_def)

lemma trace_cerr [simp]: "trace (cerr ps st) = trace st @ [Cerr ps]"
  by (simp add: cerr_def)

lemma while_true_break: "body s = Some (Break, s') \<Longrightarrow> while_true body s = Some s'"
  by (subst while_true.simps) simp

lemma while_true_round:
  "body s = Some (c, s') \<Longrightarrow> c \<noteq> Break \<Longrightarrow> while_true body s = while_true body s'"
  by (subst while_true.simps) (cases c; simp)

lemma loop_reach_while_true:
  "loop_reach body start s \<Longrightarrow> while_true body start = while_true body s"
  by (induction rule: loop_reach.induct) (simp_all add: while_true_round)

lemma trace_print_lines:
  "trace (print_lines ls st) = trace st @ map (\<lambda>l. Cout [S ''[peer] '', S l, S ''\<newline>'']) ls"
  unfolding print_lines_def by (induction ls arbitrary: st) simp_all

lemma pull_lines_rest: "pull_lines b = (ls, r) \<Longrightarrow> nl \<notin> set r"
  using pull_lines_rest_no_nl [of b] by simp

lemma on_socket_buffer:
  "on_socket os fd (st, buf) = (c, st', buf') \<Longrightarrow> nl \<notin> set buf \<Longrightarrow> nl \<notin> set buf'"
  by (auto simp: on_socket_def frame_chunk_def Let_def dest: pull_lines_rest
           split: prod.splits sysret.splits if_splits)

lemma pump_iteration_buffer:
  "pump_iteration os fd (st, buf) = Some (c, st', buf') \<Longrightarrow> nl \<notin> set buf \<Longrightarrow> nl \<notin> set buf'"
  by (auto simp: pump_iteration_def Let_def dest: on_socket_buffer
           split: prod.splits sysret.splits if_splits option.splits ctl.splits)

lemma loop_reach_buffer:
  "loop_reach (pump_iteration os fd) start s \<Longrightarrow> nl \<notin> set (snd start) \<Longrightarrow> nl \<notin> set (snd s)"
proof (induction rule: loop_reach.induct)
  case loop_reach_start
  then show ?case by simp
next
  case (loop_reach_round s c s')
  then show ?case using pump_iteration_buffer [of os fd "fst s" "snd s" c "fst s'" "snd s'"] by simp
qed

text \<open>
  C3. Inbound buffer invariant: the buffer the framing loop leaves behind holds no
  delimiter, and at the head of every round of a session (which starts with the empty
  buffer) the buffer holds none.
\<close>

theorem inbound_buffer_invariant:
  "nl \<notin> set (snd (frame_chunk incoming_buffer chunk))
   \<and> (loop_reach (pump_iteration os socket_fd) (st0, []) (st, buffer) \<longrightarrow> nl \<notin> set buffer)"
  using loop_reach_buffer [of os socket_fd "(st0, [])" "(st, buffer)"]
  by (simp add: frame_chunk_def pull_lines_rest_no_nl)


section \<open>A read of length zero ends the round\<close>

lemma quiet_refl [simp]: "extends_quietly st st"
  by (simp add: extends_quietly_def)

lemma quiet_trans: "extends_quietly a b \<Longrightarrow> extends_quietly b c \<Longrightarrow> extends_quietly a c"
  unfolding extends_quietly_def by fastforce

lemma quiet_log: "\<not> is_recv ev \<Longrightarrow> extends_quietly st (log ev w st)"
  by (simp add: extends_quietly_def)

lemma quiet_cout [simp]: "extends_quietly st (cout ps st)"
  by (simp add: cout_def quiet_log)

lemma quiet_cerr [simp]: "extends_quietly st (cerr ps st)"
  by (simp add: cerr_def quiet_log)

lemma quiet_step: "extends_quietly a b \<Longrightarrow> \<not> is_recv ev \<Longrightarrow> extends_quietly a (log ev w b)"
  by (rule quiet_trans [OF _ quiet_log])

lemma quiet_call_send: "call_send os fd data st = (r, st1) \<Longrightarrow> extends_quietly st st1"
  by (auto simp: call_send_def Let_def quiet_log split: prod.splits)

lemma send_loop_quiet:
  assumes "send_loop os fd data st = Some y"
  shows "extends_quietly st (snd y)"
proof (rule send_loop.raw_induct [where P = "\<lambda>os fd data st y. extends_quietly st (snd y)", OF _ assms])
  fix loop :: "'a os \<Rightarrow> int \<Rightarrow> string \<Rightarrow> 'a state \<Rightarrow> (bool \<times> 'a state) option"
    and os fd data st y
  assume IH: "\<And>os fd data st y. loop os fd data st = Some y \<Longrightarrow> extends_quietly st (snd y)"
    and body: "(if 0 < length data
      then case call_send os fd data st of
           (Ok n, st1) \<Rightarrow>
             if n = 0 then Some (False, st1)
             else loop os fd (drop n data) st1
           | (Fail e, st1) \<Rightarrow>
               if e = EINTR then loop os fd data st1
               else Some (False, cerr [S ''send error: '', S (strerror os e), S ''\<newline>''] st1)
      else Some (True, st)) = Some y"
  obtain r st1 where call: "call_send os fd data st = (r, st1)"
    by (cases "call_send os fd data st")
  have q: "extends_quietly st st1" by (rule quiet_call_send [OF call])
  show "extends_quietly st (snd y)"
  proof (cases "data = []")
    case True
    with body show ?thesis by auto
  next
    case False
    show ?thesis
    proof (cases r)
      case (Fail e)
      show ?thesis
      proof (cases "e = EINTR")
        case True
        with body False call Fail have "loop os fd data st1 = Some y" by simp
        from IH [OF this] q show ?thesis by (rule quiet_trans [rotated])
      next
        case False
        with body \<open>data \<noteq> []\<close> call Fail
        have "y = (False, cerr [S ''send error: '', S (strerror os e), S ''\<newline>''] st1)"
          by simp
        with q show ?thesis by (auto intro: quiet_trans)
      qed
    next
      case (Ok n)
      show ?thesis
      proof (cases "n = 0")
        case True
        with body False call Ok have "y = (False, st1)" by simp
        with q show ?thesis by simp
      next
        case n0: False
        with body False call Ok have "loop os fd (drop n data) st1 = Some y" by simp
        from IH [OF this] q show ?thesis by (rule quiet_trans [rotated])
      qed
    qed
  qed
qed

lemma quiet_call_getline: "call_getline os st = (r, st1) \<Longrightarrow> extends_quietly st st1"
  by (auto simp: call_getline_def Let_def quiet_log split: prod.splits)

lemma on_stdin_quiet:
  assumes "on_stdin os fd st = Some (c, st')"
  shows "extends_quietly st st'"
proof -
  obtain r st1 where call: "call_getline os st = (r, st1)"
    by (cases "call_getline os st")
  have q1: "extends_quietly st st1" by (rule quiet_call_getline [OF call])
  show ?thesis
  proof (cases r)
    case None
    with assms call have "st' = cout [S ''stdin closed; goodbye\<newline>''] st1"
      by (simp add: on_stdin_def)
    with q1 show ?thesis by (auto intro: quiet_trans)
  next
    case (Some line)
    with assms call obtain sent st2 where
      send: "send_loop os fd (line @ [nl]) st1 = Some (sent, st2)"
      and st': "st' = st2 \<or> st' = cerr [S ''failed to send to peer\<newline>''] st2"
      by (auto simp: on_stdin_def send_all_bytes_def split: option.splits if_splits)
    from send_loop_quiet [OF send] have "extends_quietly st1 st2" by simp
    with q1 have "extends_quietly st st2" by (rule quiet_trans)
    with st' show ?thesis by (auto intro: quiet_trans)
  qed
qed

lemma quiet_call_select: "call_select os n st = (r, st1) \<Longrightarrow> extends_quietly st st1"
  by (auto simp: call_select_def Let_def quiet_log split: prod.splits)

lemma call_recv_trace: "call_recv os fd n st = (r, st1) \<Longrightarrow> trace st1 = trace st @ [EvRecv fd r]"
  by (auto simp: call_recv_def Let_def split: prod.splits)

lemma on_socket_trace:
  assumes "on_socket os fd (st, buf) = (c, st', buf')"
  shows "peer_close_or_not fd [S ''peer disconnected\<newline>''] c st st'"
proof -
  obtain r st1 where call: "call_recv os fd 4096 st = (r, st1)"
    by (cases "call_recv os fd 4096 st")
  note tr = call_recv_trace [OF call]
  show ?thesis
  proof (cases r)
    case (Fail e)
    with assms call have "st' = st1 \<or>
       st' = cerr [S ''recv() failed: '', S (strerror os e), S ''\<newline>''] st1"
      by (auto simp: on_socket_def split: if_splits)
    with tr Fail show ?thesis unfolding peer_close_or_not_def by auto
  next
    case (Ok chunk)
    show ?thesis
    proof (cases "chunk = []")
      case True
      with assms call Ok have "c = Break" "st' = cout [S ''peer disconnected\<newline>''] st1"
        by (simp_all add: on_socket_def)
      with tr Ok True show ?thesis unfolding peer_close_or_not_def by simp
    next
      case False
      with assms call Ok have "st' = print_lines (fst (frame_chunk buf chunk)) st1"
        by (auto simp: on_socket_def split: prod.splits)
      then have "trace st' = trace st @ EvRecv fd (Ok chunk) #
          map (\<lambda>l. Cout [S ''[peer] '', S l, S ''\<newline>'']) (fst (frame_chunk buf chunk))"
        using tr Ok by (simp add: trace_print_lines)
      with False show ?thesis unfolding peer_close_or_not_def by auto
    qed
  qed
qed

lemma round_peer_close:
  assumes start: "extends_quietly sa st2"
    and sock: "peer_close_or_not fd msg c st2 sb"
    and zero: "EvRecv fd (Ok []) \<in> set (drop (length (trace sa)) (trace sb))"
  shows "c = Break \<and> (\<exists>pre. trace sb = trace sa @ pre @ [EvRecv fd (Ok []), Cout msg])"
proof -
  from start obtain e1 where e1: "trace st2 = trace sa @ e1" "\<forall>ev \<in> set e1. \<not> is_recv ev"
    unfolding extends_quietly_def by blast
  from sock show ?thesis unfolding peer_close_or_not_def
  proof
    assume "c = Break \<and> trace sb = trace st2 @ [EvRecv fd (Ok []), Cout msg]"
    with e1 show ?thesis by simp
  next
    assume "\<exists>evs. trace sb = trace st2 @ evs \<and> EvRecv fd (Ok []) \<notin> set evs"
    then obtain evs where "trace sb = trace st2 @ evs" "EvRecv fd (Ok []) \<notin> set evs" by blast
    moreover have "EvRecv fd (Ok []) \<notin> set e1"
      using e1(2) by (metis is_recv.simps(1))
    ultimately have False using e1(1) zero by simp
    then show ?thesis ..
  qed
qed

lemma quiet_no_zero_read:
  assumes "extends_quietly sa sb"
  shows "EvRecv fd (Ok []) \<notin> set (drop (length (trace sa)) (trace sb))"
proof -
  from assms obtain evs where evs: "trace sb = trace sa @ evs" "\<forall>ev \<in> set evs. \<not> is_recv ev"
    unfolding extends_quietly_def by blast
  have "is_recv (EvRecv fd (Ok []))" by simp
  with evs(2) have "EvRecv fd (Ok []) \<notin> set evs" by blast
  with evs(1) show ?thesis by simp
qed

lemma pump_iteration_peer_close:
  assumes round: "pump_iteration os fd (sa, buf) = Some (c, sb, buf')"
    and zero: "EvRecv fd (Ok []) \<in> set (drop (length (trace sa)) (trace sb))"
  shows "c = Break \<and>
    (\<exists>pre. trace sb = trace sa @ pre @ [EvRecv fd (Ok []), Cout [S ''peer disconnected\<newline>'']])"
proof -
  define n where "n = (if fd > 0 then fd else 0) + 1"
  obtain r st1 where sel: "call_select os n sa = (r, st1)"
    by (cases "call_select os n sa")
  have q1: "extends_quietly sa st1" by (rule quiet_call_select [OF sel])
  show ?thesis
  proof (cases r)
    case (Fail e)
    with round sel have "extends_quietly st1 sb"
      by (auto simp: pump_iteration_def n_def Let_def split: if_splits)
    with q1 have "extends_quietly sa sb" by (rule quiet_trans)
    with zero show ?thesis by (simp add: quiet_no_zero_read)
  next
    case (Ok read_set)
    define k where "k = (if 0 \<in> read_set then on_stdin os fd st1 else Some (Next, st1))"
    from round sel Ok obtain c2 st2 where k: "k = Some (c2, st2)"
      by (cases k) (auto simp: pump_iteration_def n_def k_def Let_def)
    have q2: "extends_quietly st1 st2"
      using k by (auto simp: k_def split: if_splits dest: on_stdin_quiet)
    have q: "extends_quietly sa st2" by (rule quiet_trans [OF q1 q2])
    show ?thesis
    proof (cases "c2 = Next \<and> fd \<in> read_set")
      case True
      with round sel Ok k have "on_socket os fd (st2, buf) = (c, sb, buf')"
        by (auto simp: pump_iteration_def n_def k_def Let_def split: if_splits)
      from round_peer_close [OF q on_socket_trace [OF this] zero] show ?thesis .
    next
      case False
      with round sel Ok k have "sb = st2"
        by (cases c2) (auto simp: pump_iteration_def n_def k_def Let_def split: if_splits)
      with q zero show ?thesis by (simp add: quiet_no_zero_read)
    qed
  qed
qed


section \<open>Facts about send_all_bytes\<close>


lemma transmitted_append [simp]: "transmitted fd (a @ b) = transmitted fd a @ transmitted fd b"
  by (simp add: transmitted_def)

lemma send_calls_append [simp]: "send_calls fd (a @ b) = send_calls fd a + send_calls fd b"
  by (simp add: send_calls_def)

lemma ceil_div_step:
  fixes n k :: nat
  assumes "0 < k" "0 < n"
  shows "(n + k - 1) div k = Suc ((n - min k n + k - 1) div k)"
proof (cases "n \<le> k")
  case True
  with assms have "(n + k - 1) div k = 1"
    by (intro div_nat_eqI) simp_all
  with True assms show ?thesis by (simp add: min_def)
next
  case False
  define m where "m = n - k + k - 1"
  have "n + k - 1 = m + k"
    using False assms by (simp add: m_def)
  then have "(n + k - 1) div k = (m + k) div k"
    by (simp only:)
  also have "\<dots> = Suc (m div k)"
    using assms by (simp add: div_add_self2)
  finally show ?thesis
    using False by (simp add: m_def min_def)
qed

lemma ceil_div_char:
  fixes N k :: nat
  assumes "0 < k"
  shows "(N + k - 1) div k = N div k + (if N mod k = 0 then 0 else 1)"
proof -
  have eq: "N = k * (N div k) + N mod k" by simp
  have lt: "N mod k < k" using assms by simp
  show ?thesis
  proof (cases "N mod k = 0")
    case True
    have "(N + k - 1) div k = N div k"
    proof (rule div_nat_eqI)
      show "k * (N div k) \<le> N + k - 1" using eq assms by linarith
      show "N + k - 1 < k * Suc (N div k)" using eq True assms by simp
    qed
    with True show ?thesis by simp
  next
    case False
    have "(N + k - 1) div k = N div k + 1"
    proof (rule div_nat_eqI)
      have "k * (N div k) < N" using eq False by linarith
      then show "k * (N div k + 1) \<le> N + k - 1" by simp
      have "N < k * (N div k) + k" using eq lt by linarith
      then show "N + k - 1 < k * Suc (N div k + 1)" using assms by simp
    qed
    with False show ?thesis by simp
  qed
qed

lemma ceil_div_real:
  fixes N k :: nat
  assumes "0 < k"
  shows "nat \<lceil>real N / real k\<rceil> = (N + k - 1) div k"
proof -
  have split: "real N / real k = real (N div k) + real (N mod k) / real k"
    by (rule of_nat_of_nat_div_aux)
  have lt: "N mod k < k" using assms by simp
  show ?thesis
  proof (cases "N mod k = 0")
    case True
    then have "real N / real k = real (N div k)" using split by simp
    then have "\<lceil>real N / real k\<rceil> = int (N div k)" by simp
    with True show ?thesis using ceil_div_char [OF assms, of N] by simp
  next
    case False
    have f0: "0 < real (N mod k) / real k" using False assms by simp
    have f1: "real (N mod k) / real k < 1" using lt assms by simp
    have "\<lceil>real N / real k\<rceil> = int (N div k) + 1"
    proof (rule ceiling_unique)
      show "of_int (int (N div k) + 1) - 1 < real N / real k" using split f0 by simp
      show "real N / real k \<le> of_int (int (N div k) + 1)" using split f1 by simp
    qed
    then have "nat \<lceil>real N / real k\<rceil> = N div k + 1" by simp
    with False show ?thesis using ceil_div_char [OF assms, of N] by simp
  qed
qed
lemma send_loop_capped:
  assumes k: "0 < k" and cap: "\<And>w d. fst (sys_send os w fd d) = Ok k"
  shows "\<exists>st'. send_loop os fd data st = Some (True, st')
           \<and> send_calls fd (trace st') = send_calls fd (trace st) + (length data + k - 1) div k
           \<and> transmitted fd (trace st') = transmitted fd (trace st) @ data"
proof (induction data arbitrary: st rule: length_induct)
  case (1 data)
  show ?case
  proof (cases "data = []")
    case True
    then show ?thesis using k by (subst send_loop.simps) simp
  next
    case False
    define n where "n = min k (length data)"
    have n: "0 < n" "n \<le> length data" using k False by (simp_all add: n_def)
    obtain w where w: "sys_send os (world st) fd data = (Ok k, w)"
      using cap [of "world st" data] by (cases "sys_send os (world st) fd data") simp
    define st1 where "st1 = log (EvSend fd data (Ok n)) w st"
    have call: "call_send os fd data st = (Ok n, st1)"
      by (simp add: call_send_def Let_def w n_def st1_def)
    have unfold: "send_loop os fd data st = send_loop os fd (drop n data) st1"
      using False n call by (subst send_loop.simps) simp
    have "length (drop n data) < length data" using n False by simp
    with 1 obtain st' where st':
      "send_loop os fd (drop n data) st1 = Some (True, st')"
      "send_calls fd (trace st') =
         send_calls fd (trace st1) + (length (drop n data) + k - 1) div k"
      "transmitted fd (trace st') = transmitted fd (trace st1) @ drop n data"
      by blast
    have calls: "send_calls fd (trace st1) = Suc (send_calls fd (trace st))"
      by (simp add: st1_def send_calls_def)
    have bytes: "transmitted fd (trace st1) = transmitted fd (trace st) @ take n data"
      by (simp add: st1_def transmitted_def)
    have "(length data + k - 1) div k = Suc ((length data - n + k - 1) div k)"
      unfolding n_def using ceil_div_step [OF k, of "length data"] False by simp
    with st' calls bytes unfold show ?thesis by simp
  qed
qed

lemma send_postI:
  "data = sent @ rest \<Longrightarrow>
   transmitted fd (trace (snd y)) = transmitted fd (trace st) @ sent \<Longrightarrow>
   (fst y \<longleftrightarrow> rest = []) \<Longrightarrow> send_post fd data st y"
  unfolding send_post_def by blast

lemma send_loop_result:
  assumes "send_loop os fd data st = Some y"
  shows "send_post fd data st y"
proof (rule send_loop.raw_induct [where P = "\<lambda>os fd data st y. send_post fd data st y", OF _ assms])
  fix loop :: "'a os \<Rightarrow> int \<Rightarrow> string \<Rightarrow> 'a state \<Rightarrow> (bool \<times> 'a state) option"
    and os fd data st y
  assume IH: "\<And>os fd data st y. loop os fd data st = Some y \<Longrightarrow> send_post fd data st y"
    and body: "(if 0 < length data
      then case call_send os fd data st of
           (Ok n, st1) \<Rightarrow>
             if n = 0 then Some (False, st1)
             else loop os fd (drop n data) st1
           | (Fail e, st1) \<Rightarrow>
               if e = EINTR then loop os fd data st1
               else Some (False, cerr [S ''send error: '', S (strerror os e), S ''\<newline>''] st1)
      else Some (True, st)) = Some y"
  show "send_post fd data st y"
  proof (cases "data = []")
    case True
    with body show ?thesis by (auto simp: send_post_def)
  next
    case False
    obtain r st1 where call: "call_send os fd data st = (r, st1)"
      by (cases "call_send os fd data st")
    obtain w where w: "st1 = log (EvSend fd data r) w st"
      using call by (auto simp: call_send_def Let_def split: prod.splits sysret.splits)
    show ?thesis
    proof (cases r)
      case (Fail e)
      have same: "transmitted fd (trace st1) = transmitted fd (trace st)"
        by (simp add: w Fail transmitted_def)
      show ?thesis
      proof (cases "e = EINTR")
        case True
        with body False call Fail have "loop os fd data st1 = Some y" by simp
        from IH [OF this] same show ?thesis by (simp add: send_post_def)
      next
        case False
        with body \<open>data \<noteq> []\<close> call Fail
        have "y = (False, cerr [S ''send error: '', S (strerror os e), S ''\<newline>''] st1)"
          by simp
        then have "transmitted fd (trace (snd y)) = transmitted fd (trace st) @ []" "\<not> fst y"
          using same by (simp_all add: transmitted_def)
        with \<open>data \<noteq> []\<close> show ?thesis by (intro send_postI [of data "[]" data]) simp_all
      qed
    next
      case (Ok n)
      have bytes: "transmitted fd (trace st1) = transmitted fd (trace st) @ take n data"
        by (simp add: w Ok transmitted_def)
      show ?thesis
      proof (cases "n = 0")
        case True
        with body False call Ok have "y = (False, st1)" by simp
        with bytes True have "transmitted fd (trace (snd y)) = transmitted fd (trace st) @ []" "\<not> fst y"
          by simp_all
        with False show ?thesis by (intro send_postI [of data "[]" data]) simp_all
      next
        case n0: False
        with body False call Ok have "loop os fd (drop n data) st1 = Some y" by simp
        from IH [OF this] obtain sent rest where sr: "drop n data = sent @ rest"
          "transmitted fd (trace (snd y)) = transmitted fd (trace st1) @ sent"
          "fst y \<longleftrightarrow> rest = []" unfolding send_post_def by blast
        have "data = (take n data @ sent) @ rest"
          using sr(1) by (metis append_assoc append_take_drop_id)
        moreover have "transmitted fd (trace (snd y)) = transmitted fd (trace st) @ take n data @ sent"
          using sr(2) bytes by simp
        ultimately show ?thesis using sr(3) by (intro send_postI [of data "take n data @ sent" rest]) simp_all
      qed
    qed
  qed
qed

lemma send_all_bytes_success_iff:
  assumes "send_all_bytes os fd text st = Some (ok, st')"
  shows "ok \<longleftrightarrow> transmitted fd (trace st') = transmitted fd (trace st) @ text"
proof -
  from send_loop_result [of os fd "text" st "(ok, st')"] assms
  obtain sent rest where sr: "text = sent @ rest"
    "transmitted fd (trace st') = transmitted fd (trace st) @ sent" "ok \<longleftrightarrow> rest = []"
    unfolding send_post_def send_all_bytes_def by auto
  then show ?thesis by auto
qed

text \<open>
  C4. Must-fully-send: when every call of the send primitive takes \<open>k\<close> bytes, or all
  that is left if that is less, with \<open>0 < k < N\<close> for a message of \<open>N\<close> bytes, then
  \<^verbatim>\<open>send_all_bytes\<close> returns, it returns \<^verbatim>\<open>true\<close>, it has called the primitive
  \<open>\<lceil>N / k\<rceil>\<close> times, and the bytes taken by those calls are the message, in order.
  (The world answers each call with the number \<open>k\<close>; \<open>call_send\<close> cuts the answer
  to what was offered. For any world at all, \<open>send_all_bytes_success_iff\<close> says that
  a returned \<^verbatim>\<open>true\<close> means exactly that all bytes were taken.)
\<close>

theorem must_fully_send:
  assumes "0 < k" and "k < N" and "length text = N"
    and "\<And>w data. fst (sys_send os w socket_fd data) = Ok k"
  shows "\<exists>st'. send_all_bytes os socket_fd text st = Some (True, st')
           \<and> send_calls socket_fd (trace st') =
               send_calls socket_fd (trace st) + nat \<lceil>real N / real k\<rceil>
           \<and> transmitted socket_fd (trace st') = transmitted socket_fd (trace st) @ text"
  using send_loop_capped [of k os socket_fd "text" st, OF assms(1) assms(4)] assms(3)
  by (simp add: send_all_bytes_def ceil_div_real [OF assms(1)])

lemmas call_defs = log_def cout_def cerr_def call_socket_def call_setsockopt_def call_bind_def
  call_listen_def call_accept_def call_connect_def call_select_def call_getline_def
  call_send_def call_recv_def call_close_def call_tcgetattr_def call_tcsetattr_def
  call_read_def call_write_def

theorem must_fully_send_witness:
  "(0::nat) < 2 \<and> (2::nat) < 5 \<and> length ''hello'' = 5
   \<and> (\<forall>w data. fst (sys_send (capped 2) w 4 data) = Ok 2)
   \<and> (\<exists>st'. send_all_bytes (capped 2) 4 ''hello'' blank = Some (True, st')
         \<and> send_calls 4 (trace st') = send_calls 4 (trace blank) + nat \<lceil>real 5 / real 2\<rceil>
         \<and> nat \<lceil>real 5 / real 2\<rceil> = 3
         \<and> transmitted 4 (trace st') = transmitted 4 (trace blank) @ ''hello'')"
proof -
  have cap: "\<And>w data. fst (sys_send (capped 2) w 4 data) = Ok 2"
    by (simp add: capped_def)
  from must_fully_send [of 2 5 "''hello''" "capped 2" 4 blank, OF _ _ _ cap] cap
  show ?thesis by simp
qed


section \<open>From a round to the exit of main\<close>


lemma main_session:
  "session_start os argv st0 = Some (fd, st) \<Longrightarrow> main os argv st0 = run_session os fd st"
  by (auto simp: session_start_def main_def Let_def split: if_splits option.splits prod.splits)


lemma run_session_break:
  assumes reach: "loop_reach (pump_iteration os fd) (session_greeting st) s"
    and brk: "pump_iteration os fd s = Some (Break, sb, buf)"
  shows "run_session os fd st = Some (Returned 0, call_close os fd sb)"
proof -
  have "while_true (pump_iteration os fd) (session_greeting st) = while_true (pump_iteration os fd) s"
    by (rule loop_reach_while_true [OF reach])
  also have "\<dots> = Some (sb, buf)"
    using brk by (rule while_true_break [of "pump_iteration os fd"])
  finally show ?thesis
    by (simp add: run_session_def session_greeting_def)
qed

lemma run_session_returns_0: "run_session os fd st = Some (out, st') \<Longrightarrow> out = Returned 0"
  by (auto simp: run_session_def split: option.splits prod.splits)

lemma stream_main_session:
  "stream_start os argv st0 = Some (sock, raw, st) \<Longrightarrow>
   stream_main os argv st0 =
     (case while_true (stream_iteration os sock) (stream_greeting st) of
        None \<Rightarrow> None
      | Some st2 \<Rightarrow> Some (Returned 0, destroy_guard os raw (call_close os sock st2)))"
  by (auto simp: stream_start_def stream_main_def stream_session_def stream_greeting_def Let_def
           split: if_splits option.splits prod.splits)

lemma stream_session_break:
  assumes start: "stream_start os argv st0 = Some (sock, raw, st)"
    and reach: "loop_reach (stream_iteration os sock) (stream_greeting st) ta"
    and brk: "stream_iteration os sock ta = Some (Break, tb)"
  shows "stream_main os argv st0 = Some (Returned 0, destroy_guard os raw (call_close os sock tb))"
proof -
  have "while_true (stream_iteration os sock) (stream_greeting st) = while_true (stream_iteration os sock) ta"
    by (rule loop_reach_while_true [OF reach])
  also have "\<dots> = Some tb"
    using brk by (rule while_true_break [of "stream_iteration os sock"])
  finally show ?thesis
    by (simp add: stream_main_session [OF start])
qed

lemma quiet_call_read: "call_read os fd n st = (r, st1) \<Longrightarrow> extends_quietly st st1"
  by (auto simp: call_read_def Let_def quiet_log split: prod.splits)

lemma quiet_call_write [simp]: "extends_quietly st (call_write os fd bytes st)"
  by (simp add: call_write_def quiet_log)

lemma stream_on_stdin_quiet:
  assumes "stream_on_stdin os sock st = Some (c, st')"
  shows "extends_quietly st st'"
proof -
  obtain r st1 where call: "call_read os STDIN_FILENO 1 st = (r, st1)"
    by (cases "call_read os STDIN_FILENO 1 st")
  have q1: "extends_quietly st st1" by (rule quiet_call_read [OF call])
  show ?thesis
  proof (cases r)
    case (Fail e)
    with assms call have "st' = st1 \<or>
      st' = cerr [S ''\<newline>read(stdin) failed: '', S (strerror os e), S ''\<newline>''] st1"
      by (auto simp: stream_on_stdin_def split: if_splits)
    with q1 show ?thesis by (auto intro: quiet_trans)
  next
    case (Ok ch)
    show ?thesis
    proof (cases "length ch = 1")
      case False
      with assms call Ok have "st' = cout [S ''\<newline>stdin closed\<newline>''] st1"
        by (simp add: stream_on_stdin_def)
      with q1 show ?thesis by (auto intro: quiet_trans)
    next
      case True
      define st2 where "st2 = call_write os STDOUT_FILENO ch st1"
      from assms call Ok True obtain sent st3 where
        send: "send_loop os sock ch st2 = Some (sent, st3)"
        and st': "st' = st3 \<or> st' = cerr [S ''\<newline>failed to send to peer\<newline>''] st3"
        by (auto simp: stream_on_stdin_def send_all_bytes_def st2_def Let_def
                 split: option.splits if_splits)
      have "extends_quietly st1 st2" by (simp add: st2_def)
      moreover from send_loop_quiet [OF send] have "extends_quietly st2 st3" by simp
      ultimately have "extends_quietly st st3" using q1 by (blast intro: quiet_trans)
      with st' show ?thesis by (auto intro: quiet_trans)
    qed
  qed
qed

lemma stream_on_socket_trace:
  assumes "stream_on_socket os sock st = (c, st')"
  shows "peer_close_or_not sock [S ''\<newline>peer disconnected\<newline>''] c st st'"
proof -
  obtain r st1 where call: "call_recv os sock 4096 st = (r, st1)"
    by (cases "call_recv os sock 4096 st")
  note tr = call_recv_trace [OF call]
  show ?thesis
  proof (cases r)
    case (Fail e)
    with assms call have "st' = st1 \<or>
       st' = cerr [S ''\<newline>recv() failed: '', S (strerror os e), S ''\<newline>''] st1"
      by (auto simp: stream_on_socket_def split: if_splits)
    with tr Fail show ?thesis unfolding peer_close_or_not_def by auto
  next
    case (Ok buf)
    show ?thesis
    proof (cases "buf = []")
      case True
      with assms call Ok have "c = Break" "st' = cout [S ''\<newline>peer disconnected\<newline>''] st1"
        by (simp_all add: stream_on_socket_def)
      with tr Ok True show ?thesis unfolding peer_close_or_not_def by simp
    next
      case False
      with assms call Ok have "st' = call_write os STDOUT_FILENO buf st1"
        by (auto simp: stream_on_socket_def)
      then have "trace st' = trace st @ [EvRecv sock (Ok buf), EvWrite STDOUT_FILENO buf]"
        using tr Ok by (simp add: call_write_def)
      with False show ?thesis unfolding peer_close_or_not_def by auto
    qed
  qed
qed

lemma stream_iteration_peer_close:
  assumes round: "stream_iteration os sock ta = Some (c, tb)"
    and zero: "EvRecv sock (Ok []) \<in> set (drop (length (trace ta)) (trace tb))"
  shows "c = Break \<and>
    (\<exists>pre. trace tb = trace ta @ pre @ [EvRecv sock (Ok []), Cout [S ''\<newline>peer disconnected\<newline>'']])"
proof -
  define n where "n = (if sock > STDIN_FILENO then sock else STDIN_FILENO) + 1"
  obtain r st1 where sel: "call_select os n ta = (r, st1)"
    by (cases "call_select os n ta")
  have q1: "extends_quietly ta st1" by (rule quiet_call_select [OF sel])
  show ?thesis
  proof (cases r)
    case (Fail e)
    with round sel have "extends_quietly st1 tb"
      by (auto simp: stream_iteration_def n_def Let_def split: if_splits)
    with q1 have "extends_quietly ta tb" by (rule quiet_trans)
    with zero show ?thesis by (simp add: quiet_no_zero_read)
  next
    case (Ok read_set)
    define k where "k = (if STDIN_FILENO \<in> read_set then stream_on_stdin os sock st1 else Some (Next, st1))"
    from round sel Ok obtain c2 st2 where k: "k = Some (c2, st2)"
      by (cases k) (auto simp: stream_iteration_def n_def k_def Let_def)
    have q2: "extends_quietly st1 st2"
      using k by (auto simp: k_def split: if_splits dest: stream_on_stdin_quiet)
    have q: "extends_quietly ta st2" by (rule quiet_trans [OF q1 q2])
    show ?thesis
    proof (cases "c2 = Next \<and> sock \<in> read_set")
      case True
      with round sel Ok k have "stream_on_socket os sock st2 = (c, tb)"
        by (auto simp: stream_iteration_def n_def k_def Let_def split: if_splits)
      from round_peer_close [OF q stream_on_socket_trace [OF this] zero] show ?thesis .
    next
      case False
      with round sel Ok k have "tb = st2"
        by (cases c2) (auto simp: stream_iteration_def n_def k_def Let_def split: if_splits)
      with q zero show ?thesis by (simp add: quiet_no_zero_read)
    qed
  qed
qed

lemma send_calls_destroy_guard:
  "send_calls fd (trace (destroy_guard os guard st)) = send_calls fd (trace st)"
  by (simp add: destroy_guard_def call_tcsetattr_def Let_def send_calls_def split: prod.split)

text \<open>
  C7. Termination on peer close, for both programs. Take any session (the setup
  succeeded), any round of its loop, and suppose that in this round a \<^verbatim>\<open>recv\<close> on
  the connection returned 0. Then the round ends with \<^verbatim>\<open>break\<close>; the read and the
  message that reports it are the last two events of the round, so nothing is sent
  after the read; and \<open>main\<close> returns 0 in the state of the end of the round with
  the connection closed (and, in the keystroke program, the terminal restored), which
  adds the \<^verbatim>\<open>close\<close> and no \<^verbatim>\<open>send\<close>.
\<close>

theorem termination_on_peer_close:
  "(session_start os argv st0 = Some (socket_fd, st) \<longrightarrow>
    loop_reach (pump_iteration os socket_fd) (session_greeting st) (sa, buffer) \<longrightarrow>
    pump_iteration os socket_fd (sa, buffer) = Some (c, sb, buffer') \<longrightarrow>
    EvRecv socket_fd (Ok []) \<in> set (drop (length (trace sa)) (trace sb)) \<longrightarrow>
      c = Break
      \<and> (\<exists>pre. trace sb =
             trace sa @ pre @ [EvRecv socket_fd (Ok []), Cout [S ''peer disconnected\<newline>'']])
      \<and> main os argv st0 = Some (Returned 0, call_close os socket_fd sb)
      \<and> trace (call_close os socket_fd sb) = trace sb @ [EvClose socket_fd])
   \<and> (stream_start os argv' st0' = Some (sock, raw, st') \<longrightarrow>
      loop_reach (stream_iteration os sock) (stream_greeting st') ta \<longrightarrow>
      stream_iteration os sock ta = Some (c', tb) \<longrightarrow>
      EvRecv sock (Ok []) \<in> set (drop (length (trace ta)) (trace tb)) \<longrightarrow>
        c' = Break
        \<and> (\<exists>pre. trace tb =
               trace ta @ pre @ [EvRecv sock (Ok []), Cout [S ''\<newline>peer disconnected\<newline>'']])
        \<and> stream_main os argv' st0' =
            Some (Returned 0, destroy_guard os raw (call_close os sock tb))
        \<and> send_calls sock (trace (destroy_guard os raw (call_close os sock tb))) =
            send_calls sock (trace tb))"
proof (intro conjI impI)
  assume start: "session_start os argv st0 = Some (socket_fd, st)"
    and reach: "loop_reach (pump_iteration os socket_fd) (session_greeting st) (sa, buffer)"
    and round: "pump_iteration os socket_fd (sa, buffer) = Some (c, sb, buffer')"
    and zero: "EvRecv socket_fd (Ok []) \<in> set (drop (length (trace sa)) (trace sb))"
  from pump_iteration_peer_close [OF round zero]
  show c: "c = Break"
    and "\<exists>pre. trace sb =
             trace sa @ pre @ [EvRecv socket_fd (Ok []), Cout [S ''peer disconnected\<newline>'']]"
    by simp_all
  from run_session_break [OF reach] round c main_session [OF start]
  show "main os argv st0 = Some (Returned 0, call_close os socket_fd sb)"
    by simp
  show "trace (call_close os socket_fd sb) = trace sb @ [EvClose socket_fd]"
    by (simp add: call_close_def)
next
  assume start: "stream_start os argv' st0' = Some (sock, raw, st')"
    and reach: "loop_reach (stream_iteration os sock) (stream_greeting st') ta"
    and round: "stream_iteration os sock ta = Some (c', tb)"
    and zero: "EvRecv sock (Ok []) \<in> set (drop (length (trace ta)) (trace tb))"
  from stream_iteration_peer_close [OF round zero]
  show c: "c' = Break"
    and "\<exists>pre. trace tb =
               trace ta @ pre @ [EvRecv sock (Ok []), Cout [S ''\<newline>peer disconnected\<newline>'']]"
    by simp_all
  from stream_session_break [OF start reach] round c
  show "stream_main os argv' st0' =
            Some (Returned 0, destroy_guard os raw (call_close os sock tb))"
    by simp
  show "send_calls sock (trace (destroy_guard os raw (call_close os sock tb))) =
            send_calls sock (trace tb)"
    by (simp add: send_calls_destroy_guard) (simp add: call_close_def send_calls_def)
qed

section \<open>The runs in the scripted world, evaluated\<close>

lemmas run_defs = main_def session_start_def setup_failure_def listen_and_accept_def
  connect_to_peer_def run_session_def session_greeting_def pump_iteration_def on_stdin_def
  on_socket_def frame_chunk_def print_lines_def send_all_bytes_def zero_addr_def
  static_cast_uint16_def Let_def

lemmas script_defs = scripted_def quiet_def peer_def EINTR_def AF_INET_def INADDR_ANY_def

lemmas stream_defs = stream_main_def stream_start_def stream_session_def stream_greeting_def
  stream_iteration_def stream_on_stdin_def stream_on_socket_def enable_def destroy_guard_def
  new_guard_def STDIN_FILENO_def STDOUT_FILENO_def

lemma e1_session_start: "session_start scripted listen_argv e1_start = Some (4, e1_session)"
  by (simp add: run_defs call_defs script_defs listen_argv_def e1_start_def e1_session_def
        accepted_def htons_def ntohs_def)

lemma e1_round1:
  "pump_iteration scripted 4 (session_greeting e1_session) = Some (Next, e1_head, ''pin'')"
  by (simp add: run_defs call_defs script_defs e1_session_def e1_head_def greeted_def
        pull_lines.simps nl_def substr_def erase_def)

lemma e1_reach:
  "loop_reach (pump_iteration scripted 4) (session_greeting e1_session) (e1_head, ''pin'')"
  by (rule loop_reach_round [where body = "pump_iteration scripted 4"
        and s = "session_greeting e1_session" and c = Next])
     (simp_all add: loop_reach_start e1_round1)

lemma e1_round2: "pump_iteration scripted 4 (e1_head, ''pin'') = Some (Break, e1_end, ''pin'')"
  by (simp add: run_defs call_defs script_defs e1_head_def e1_end_def)




lemma e6_stream_start:
  "stream_start scripted listen_argv e6_start =
     Some (4, \<lparr>original = cooked, active = True\<rparr>, e6_session)"
  by (simp add: run_defs stream_defs call_defs script_defs listen_argv_def e6_start_def
        e6_session_def cooked_def accepted_def htons_def ntohs_def)

lemma e6_round: "stream_iteration scripted 4 (stream_greeting e6_session) = Some (Break, e6_end)"
  by (simp add: run_defs stream_defs call_defs script_defs e6_session_def e6_end_def)

text \<open>
  A witness for C3: in the first run the head of the second round is reached with the
  buffer \<^verbatim>\<open>pin\<close>.
\<close>

theorem inbound_buffer_invariant_witness:
  "loop_reach (pump_iteration scripted 4) (fst (session_greeting e1_session), []) (e1_head, ''pin'')
   \<and> nl \<notin> set (snd (frame_chunk [] ''ping\<newline>pin''))
   \<and> nl \<notin> set ''pin''"
  using inbound_buffer_invariant [of "[]" "''ping\<newline>pin''" scripted 4
          "fst (session_greeting e1_session)" e1_head "''pin''"] e1_reach
  by (simp add: session_greeting_def)

text \<open>
  A witness for C7: the first run for the line program, the sixth for the keystroke
  program.
\<close>

theorem termination_on_peer_close_witness:
  "session_start scripted listen_argv e1_start = Some (4, e1_session)
   \<and> loop_reach (pump_iteration scripted 4) (session_greeting e1_session) (e1_head, ''pin'')
   \<and> pump_iteration scripted 4 (e1_head, ''pin'') = Some (Break, e1_end, ''pin'')
   \<and> EvRecv 4 (Ok []) \<in> set (drop (length (trace e1_head)) (trace e1_end))
   \<and> main scripted listen_argv e1_start = Some (Returned 0, call_close scripted 4 e1_end)
   \<and> stream_start scripted listen_argv e6_start =
        Some (4, \<lparr>original = cooked, active = True\<rparr>, e6_session)
   \<and> loop_reach (stream_iteration scripted 4) (stream_greeting e6_session)
        (stream_greeting e6_session)
   \<and> stream_iteration scripted 4 (stream_greeting e6_session) = Some (Break, e6_end)
   \<and> EvRecv 4 (Ok []) \<in> set (drop (length (trace (stream_greeting e6_session))) (trace e6_end))
   \<and> stream_main scripted listen_argv e6_start =
        Some (Returned 0,
              destroy_guard scripted \<lparr>original = cooked, active = True\<rparr>
                (call_close scripted 4 e6_end))"
proof -
  have zero: "EvRecv 4 (Ok []) \<in> set (drop (length (trace e1_head)) (trace e1_end))"
    by (simp add: e1_end_def)
  have zero': "EvRecv 4 (Ok []) \<in> set (drop (length (trace (stream_greeting e6_session))) (trace e6_end))"
    by (simp add: e6_end_def)
  have start': "loop_reach (stream_iteration scripted 4) (stream_greeting e6_session)
        (stream_greeting e6_session)"
    by (rule loop_reach_start)
  from termination_on_peer_close [of scripted listen_argv e1_start 4 e1_session e1_head "''pin''"
      Break e1_end "''pin''" listen_argv e6_start 4 "\<lparr>original = cooked, active = True\<rparr>"
      e6_session "stream_greeting e6_session" Break e6_end]
    e1_session_start e1_reach e1_round2 zero e6_stream_start start' e6_round zero'
  show ?thesis by simp
qed

section \<open>Exit codes\<close>







section \<open>An interrupted accept\<close>






section \<open>The usage path\<close>



section \<open>Empty lines\<close>

lemma pull_lines_delimited:
  "pull_lines (a @ nl # b) = (fst (pull_lines (a @ [nl])) @ fst (pull_lines b), snd (pull_lines b))"
proof -
  have last: "pull_lines (snd (pull_lines a) @ [nl]) = ([snd (pull_lines a)], [])"
    using pull_lines_line [of "snd (pull_lines a)" "[]"] pull_lines_rest_no_nl [of a]
    by (simp add: pull_lines_no_nl)
  have "pull_lines (a @ nl # b) = pull_lines ((a @ [nl]) @ b)" by simp
  also have "\<dots> = (fst (pull_lines (a @ [nl])) @ fst (pull_lines (snd (pull_lines (a @ [nl])) @ b)),
      snd (pull_lines (snd (pull_lines (a @ [nl])) @ b)))"
    by (rule pull_lines_append)
  also have "snd (pull_lines (a @ [nl])) = []"
    by (subst pull_lines_append) (simp add: last)
  finally show ?thesis by simp
qed

lemma on_socket_prints:
  assumes "call_recv os socket_fd 4096 st = (Ok chunk, st1)" and "chunk \<noteq> []"
  shows "on_socket os socket_fd (st, buffer) =
           (Next, print_lines (fst (frame_chunk buffer chunk)) st1,
            snd (frame_chunk buffer chunk))"
  using assms by (simp add: on_socket_def split: prod.split)

text \<open>
  C9. Empty messages are legal outputs: a leading delimiter gives an empty first line,
  two delimiters in a row give an empty line between the lines before and the lines
  after, the loop cuts off exactly one line per delimiter, and every line it cuts off,
  empty or not, is printed: the receive path prints all the lines of the chunk it has
  framed, one \<^verbatim>\<open>[peer]\<close> line each.
\<close>

theorem empty_messages_are_emitted:
  "fst (pull_lines (nl # b)) = [] # fst (pull_lines b)
   \<and> fst (pull_lines (a @ nl # nl # b)) = fst (pull_lines (a @ [nl])) @ [] # fst (pull_lines b)
   \<and> length (fst (pull_lines input)) = count_list input nl
   \<and> trace (print_lines ls st) =
       trace st @ map (\<lambda>one_line. Cout [S ''[peer] '', S one_line, S ''\<newline>'']) ls
   \<and> (call_recv os socket_fd 4096 st = (Ok chunk, st1) \<longrightarrow> chunk \<noteq> [] \<longrightarrow>
        on_socket os socket_fd (st, buffer) =
          (Next, print_lines (fst (frame_chunk buffer chunk)) st1,
           snd (frame_chunk buffer chunk)))"
proof -
  have lead: "\<And>b. fst (pull_lines (nl # b)) = [] # fst (pull_lines b)"
    using pull_lines_line [of "[]"] by simp
  have "fst (pull_lines (a @ nl # nl # b)) = fst (pull_lines (a @ [nl])) @ fst (pull_lines (nl # b))"
    by (simp add: pull_lines_delimited [of a "nl # b"])
  with lead show ?thesis
    by (simp add: pull_lines_count trace_print_lines on_socket_prints)
qed

theorem empty_messages_are_emitted_witness:
  "call_recv scripted 4 4096 e7_head = (Ok ''\<newline>\<newline>hi\<newline>'', e7_received)
   \<and> ''\<newline>\<newline>hi\<newline>'' \<noteq> []
   \<and> fst (frame_chunk ''ab'' ''\<newline>\<newline>hi\<newline>'') = [''ab'', [], ''hi'']
   \<and> on_socket scripted 4 (e7_head, ''ab'') = (Next, e7_printed, [])"
proof -
  have received: "call_recv scripted 4 4096 e7_head = (Ok ''\<newline>\<newline>hi\<newline>'', e7_received)"
    by (simp add: call_defs script_defs e7_head_def e7_received_def Let_def)
  have framed: "frame_chunk ''ab'' ''\<newline>\<newline>hi\<newline>'' = ([''ab'', [], ''hi''], [])"
    by (simp add: frame_chunk_def pull_lines.simps nl_def substr_def erase_def)
  have printed: "print_lines [''ab'', [], ''hi''] e7_received = e7_printed"
    by (simp add: print_lines_def call_defs e7_received_def e7_printed_def)
  from empty_messages_are_emitted [where os = scripted and socket_fd = 4 and st = e7_head
      and chunk = "''\<newline>\<newline>hi\<newline>''" and ?st1.0 = e7_received and buffer = "''ab''"]
    received framed printed
  show ?thesis by simp
qed

section \<open>The port\<close>

lemma ntohs_htons: "ntohs (htons x) = x"
  unfolding htons_def ntohs_def
  by (rule bit_word_eqI) (auto simp: bit_simps)

lemma port_truncated: "uint (ntohs (htons (static_cast_uint16 port))) = sint port mod 2 ^ 16"
proof -
  have "uint (ucast port :: 16 word) = take_bit 16 (uint port)"
    by (simp add: unsigned_ucast_eq)
  also have "\<dots> = take_bit 16 (sint port)"
    by (simp add: sint_uint take_bit_signed_take_bit)
  finally show ?thesis
    by (simp add: ntohs_htons static_cast_uint16_def take_bit_eq_mod)
qed

lemma bind_ports_append [simp]: "bind_ports (a @ b) = bind_ports a @ bind_ports b"
  by (simp add: bind_ports_def)

lemma connect_ports_append [simp]: "connect_ports (a @ b) = connect_ports a @ connect_ports b"
  by (simp add: connect_ports_def)

lemma bind_ports_listen_and_accept:
  "bind_ports (trace (snd (listen_and_accept os port st))) =
     bind_ports (trace st) @
       (case fst (call_socket os st) of Ok fd \<Rightarrow> [sint port mod 2 ^ 16] | Fail e \<Rightarrow> [])"
  by (auto simp: listen_and_accept_def call_defs Let_def bind_ports_def zero_addr_def
        port_truncated split: prod.splits sysret.splits)

lemma connect_ports_connect_to_peer:
  "connect_ports (trace (snd (connect_to_peer os host port st))) =
     connect_ports (trace st) @
       (case fst (call_socket os st) of
          Ok fd \<Rightarrow> (case inet_pton os host of Some a \<Rightarrow> [sint port mod 2 ^ 16] | None \<Rightarrow> [])
        | Fail e \<Rightarrow> [])"
  by (auto simp: connect_to_peer_def call_defs Let_def connect_ports_def zero_addr_def
        port_truncated split: prod.splits sysret.splits option.splits)

text \<open>
  C10. Port truncation: the port the kernel reads from the address is the argument
  modulo \<open>2 ^ 16\<close>; that is the port of the one \<^verbatim>\<open>bind\<close> of \<^verbatim>\<open>listen_and_accept\<close>
  and of the one \<^verbatim>\<open>connect\<close> of \<^verbatim>\<open>connect_to_peer\<close> (when they get that far); and
  the argument 68869 silently becomes the port 3333.
\<close>

theorem port_truncation:
  "uint (ntohs (htons (static_cast_uint16 port))) = sint port mod 2 ^ 16
   \<and> bind_ports (trace (snd (listen_and_accept os port st))) =
       bind_ports (trace st) @
         (case fst (call_socket os st) of Ok fd \<Rightarrow> [sint port mod 2 ^ 16] | Fail e \<Rightarrow> [])
   \<and> connect_ports (trace (snd (connect_to_peer os host port st))) =
       connect_ports (trace st) @
         (case fst (call_socket os st) of
            Ok fd \<Rightarrow> (case inet_pton os host of Some a \<Rightarrow> [sint port mod 2 ^ 16] | None \<Rightarrow> [])
          | Fail e \<Rightarrow> [])
   \<and> sint (68869 :: 32 word) = 68869
   \<and> uint (ntohs (htons (static_cast_uint16 68869))) = 3333"
  using port_truncated [of port] port_truncated [of 68869]
  by (simp add: bind_ports_listen_and_accept connect_ports_connect_to_peer)

end
